theory Spec2Isabelle
  imports Main "HOL-Library.Word"
begin

unbundle bit_operations_syntax

section \<open>The streamer relay: a model of \<^verbatim>\<open>main.go\<close>\<close>

text \<open>
  The service pairs an uploader (POST) with a downloader (GET) through an in-memory
  registry and copies the upload's body into the download's response. The model
  follows \<^verbatim>\<open>main.go\<close> statement by statement. Go byte slices and strings are
  \<open>string\<close> (lists of 8-bit characters). The routines of Go's standard library that
  the handler calls (base64, bufio, io, net/http) are modelled from their
  implementation in the Go distribution; everything the handler cannot decide by
  itself (the clock, the random generator, the peers) is a field of the environment.
  The downloads in flight are part of the shared state, and take their steps between
  the statements of the upload; the two unbuffered channels of a transfer are
  rendezvous between a download and the upload.
\<close>

subsection \<open>Errors\<close>

text \<open>Go \<^verbatim>\<open>error\<close> values; \<open>Error()\<close> is \<open>error_text\<close>.\<close>

datatype go_error = EOF | ErrShortWrite | ErrInvalidWrite | Err string

fun error_text :: "go_error \<Rightarrow> string" where
  "error_text EOF = ''EOF''"
| "error_text ErrShortWrite = ''short write''"
| "error_text ErrInvalidWrite = ''invalid write result''"
| "error_text (Err msg) = msg"

subsection \<open>Constants of \<^verbatim>\<open>main.go\<close>\<close>

definition prefix :: string where
  "prefix = ''streamer''"

definition bufferSize :: nat where
  "bufferSize = 2 ^ 15"

definition noWritten :: int where
  "noWritten = - 1"

definition StatusOK :: int where
  "StatusOK = 200"

definition StatusBadRequest :: int where
  "StatusBadRequest = 400"

definition StatusUnauthorized :: int where
  "StatusUnauthorized = 401"

definition StatusNotFound :: int where
  "StatusNotFound = 404"

definition StatusInternalServerError :: int where
  "StatusInternalServerError = 500"

subsection \<open>\<^verbatim>\<open>encoding/base64\<close>\<close>

text \<open>
  \<^verbatim>\<open>base64.URLEncoding\<close> is the padded encoding over the URL-safe alphabet;
  \<^verbatim>\<open>Encode\<close> packs three source bytes into a 24-bit value and emits four
  characters, and pads a final group of one or two bytes with \<open>=\<close>.
  \<^verbatim>\<open>base64.StdEncoding.EncodedLen\<close> is the padded length.
\<close>

definition encodeURL :: string where
  "encodeURL = ''ABCDEFGHIJKLMNOPQRSTUVWXYZabcdefghijklmnopqrstuvwxyz0123456789-_''"

definition padChar :: char where
  "padChar = CHR ''=''"

definition enc_digit :: "64 word \<Rightarrow> char" where
  "enc_digit v = encodeURL ! unat (v AND 0x3F)"

fun encode_groups :: "string \<Rightarrow> string" where
  "encode_groups (a # b # c # rest) =
     (let val = push_bit 16 (of_char a) OR push_bit 8 (of_char b) OR of_char c
      in enc_digit (drop_bit 18 val) # enc_digit (drop_bit 12 val)
         # enc_digit (drop_bit 6 val) # enc_digit val # encode_groups rest)"
| "encode_groups [a, b] =
     (let val = push_bit 16 (of_char a) OR push_bit 8 (of_char b)
      in [enc_digit (drop_bit 18 val), enc_digit (drop_bit 12 val),
          enc_digit (drop_bit 6 val), padChar])"
| "encode_groups [a] =
     (let val = push_bit 16 (of_char a)
      in [enc_digit (drop_bit 18 val), enc_digit (drop_bit 12 val), padChar, padChar])"
| "encode_groups [] = []"

definition EncodedLen :: "nat \<Rightarrow> nat" where
  "EncodedLen n = (n + 2) div 3 * 4"

text \<open>\<^verbatim>\<open>Encode(dst, src)\<close> overwrites the front of \<open>dst\<close> and leaves the rest.\<close>

definition Encode :: "string \<Rightarrow> string \<Rightarrow> string" where
  "Encode dst src = encode_groups src @ drop (length (encode_groups src)) dst"

subsection \<open>\<^verbatim>\<open>net/http\<close>: the response writer of a request\<close>

text \<open>
  An \<^verbatim>\<open>http.ResponseWriter\<close>: the header map stays editable until the status
  line is written, which freezes a copy of it (\<open>rw_sent\<close>); the first \<^verbatim>\<open>Write\<close>
  writes status 200 by itself. \<open>rw_room\<close> is the environment's part: how many more
  body bytes the peer accepts before a write fails (\<open>None\<close>: no failure).
  Header names are kept as written.
\<close>

definition LF :: char where
  "LF = CHR 0x0A"

definition CR :: char where
  "CR = CHR 0x0D"

definition DQ :: char where
  "DQ = CHR 0x22"

record response_writer =
  rw_header :: "(string \<times> string) list"
  rw_status :: "int option"
  rw_sent :: "(string \<times> string) list"
  rw_body :: string
  rw_room :: "nat option"

definition Header_Add :: "string \<Rightarrow> string \<Rightarrow> response_writer \<Rightarrow> response_writer" where
  "Header_Add k v w = w\<lparr>rw_header := rw_header w @ [(k, v)]\<rparr>"

definition Header_Del :: "string \<Rightarrow> response_writer \<Rightarrow> response_writer" where
  "Header_Del k w = w\<lparr>rw_header := filter (\<lambda>kv. fst kv \<noteq> k) (rw_header w)\<rparr>"

definition Header_Set :: "string \<Rightarrow> string \<Rightarrow> response_writer \<Rightarrow> response_writer" where
  "Header_Set k v w = Header_Add k v (Header_Del k w)"

definition rw_WriteHeader :: "int \<Rightarrow> response_writer \<Rightarrow> response_writer" where
  "rw_WriteHeader code w =
     (case rw_status w of
        Some _ \<Rightarrow> w
      | None \<Rightarrow> w\<lparr>rw_status := Some code, rw_sent := rw_header w\<rparr>)"

definition rw_Write :: "string \<Rightarrow> response_writer \<Rightarrow> (nat \<times> go_error option) \<times> response_writer" where
  "rw_Write data w =
     (let w1 = rw_WriteHeader StatusOK w in
      case rw_room w1 of
        None \<Rightarrow> ((length data, None), w1\<lparr>rw_body := rw_body w1 @ data\<rparr>)
      | Some k \<Rightarrow>
          if length data \<le> k
          then ((length data, None),
                w1\<lparr>rw_body := rw_body w1 @ data, rw_room := Some (k - length data)\<rparr>)
          else ((k, Some (Err ''write: broken pipe'')),
                w1\<lparr>rw_body := rw_body w1 @ take k data, rw_room := Some 0\<rparr>))"

text \<open>\<^verbatim>\<open>http.Error\<close> prints the message with \<^verbatim>\<open>fmt.Fprintln\<close>, which appends a newline.\<close>

definition http_Error :: "string \<Rightarrow> int \<Rightarrow> response_writer \<Rightarrow> response_writer" where
  "http_Error msg code w =
     snd (rw_Write (msg @ [LF])
       (rw_WriteHeader code
         (Header_Set ''X-Content-Type-Options'' ''nosniff''
           (Header_Set ''Content-Type'' ''text/plain; charset=utf-8''
             (Header_Del ''Content-Length'' w)))))"

definition http_NotFound :: "response_writer \<Rightarrow> response_writer" where
  "http_NotFound w = http_Error ''404 page not found'' StatusNotFound w"

text \<open>When a handler returns, the server writes the status line if nothing did.\<close>

definition rw_finish :: "response_writer \<Rightarrow> response_writer" where
  "rw_finish w = rw_WriteHeader StatusOK w"

subsection \<open>\<^verbatim>\<open>bufio\<close>: the two halves of the hijacked connection\<close>

text \<open>
  \<^verbatim>\<open>bufrw.Writer\<close>: bytes are buffered until \<^verbatim>\<open>Flush\<close> hands them to the
  connection; an error of the connection sticks, and later writes accept nothing.
  \<open>bw_room\<close> is again the peer's part.
\<close>

record bufio_writer =
  bw_buf :: string
  bw_wire :: string
  bw_err :: "go_error option"
  bw_room :: "nat option"

definition bw_Write :: "string \<Rightarrow> bufio_writer \<Rightarrow> (nat \<times> go_error option) \<times> bufio_writer" where
  "bw_Write data b =
     (case bw_err b of
        Some err \<Rightarrow> ((0, Some err), b)
      | None \<Rightarrow> ((length data, None), b\<lparr>bw_buf := bw_buf b @ data\<rparr>))"

definition bw_Flush :: "bufio_writer \<Rightarrow> go_error option \<times> bufio_writer" where
  "bw_Flush b =
     (case bw_err b of
        Some err \<Rightarrow> (Some err, b)
      | None \<Rightarrow>
          (case bw_room b of
             None \<Rightarrow> (None, b\<lparr>bw_wire := bw_wire b @ bw_buf b, bw_buf := []\<rparr>)
           | Some k \<Rightarrow>
               if length (bw_buf b) \<le> k
               then (None, b\<lparr>bw_wire := bw_wire b @ bw_buf b, bw_buf := [],
                              bw_room := Some (k - length (bw_buf b))\<rparr>)
               else (Some ErrShortWrite,
                     b\<lparr>bw_wire := bw_wire b @ take k (bw_buf b), bw_buf := drop k (bw_buf b),
                       bw_room := Some 0, bw_err := Some ErrShortWrite\<rparr>)))"

text \<open>
  \<^verbatim>\<open>bufrw.Reader\<close>: the request body as the connection delivers it, in pieces
  (\<open>pending\<close>), followed by the error that ends it (\<open>fin\<close>, \<open>EOF\<close> for an orderly
  end). One \<^verbatim>\<open>Read(p)\<close> returns at most \<open>len(p)\<close> bytes of the next piece.
\<close>

record reader =
  pending :: "string list"
  fin :: go_error

definition reader_Read :: "nat \<Rightarrow> reader \<Rightarrow> (string \<times> go_error option) \<times> reader" where
  "reader_Read plen rd =
     (case pending rd of
        [] \<Rightarrow> (([], Some (fin rd)), rd)
      | c # cs \<Rightarrow>
          if length c \<le> plen then ((c, None), rd\<lparr>pending := cs\<rparr>)
          else ((take plen c, None), rd\<lparr>pending := drop plen c # cs\<rparr>))"

subsection \<open>\<^verbatim>\<open>io.LimitReader\<close> and \<^verbatim>\<open>io.CopyBuffer\<close>\<close>

text \<open>
  \<^verbatim>\<open>LimitedReader.Read\<close> answers \<open>EOF\<close> once \<open>N \<le> 0\<close>, and otherwise cuts the
  caller's slice down to \<open>N\<close> bytes before it reads.
\<close>

record limited_reader =
  lr_R :: reader
  lr_N :: int

definition LimitReader :: "reader \<Rightarrow> int \<Rightarrow> limited_reader" where
  "LimitReader r n = \<lparr>lr_R = r, lr_N = n\<rparr>"

definition LimitedReader_Read ::
  "nat \<Rightarrow> limited_reader \<Rightarrow> (string \<times> go_error option) \<times> limited_reader" where
  "LimitedReader_Read plen l =
     (if lr_N l \<le> 0 then (([], Some EOF), l)
      else
        let plen' = (if int plen > lr_N l then nat (lr_N l) else plen);
            res = reader_Read plen' (lr_R l)
        in (fst res, \<lparr>lr_R = snd res, lr_N = lr_N l - int (length (fst (fst res)))\<rparr>))"

text \<open>
  The copy loop of \<^verbatim>\<open>io.CopyBuffer\<close>: read into the buffer, write what was read,
  stop at the first error of either side; \<open>EOF\<close> from the source is not an error
  of the copy. \<open>writes\<close> collects the slices handed to \<^verbatim>\<open>dst.Write\<close>, in order.
  \<^verbatim>\<open>CopyBuffer\<close> panics on an empty buffer before the loop starts; the loop
  repeats that test, since without it a read into an empty slice makes no progress.
  (When \<open>dst\<close> offers \<^verbatim>\<open>ReadFrom\<close>, Go runs the same loop inside \<open>dst\<close> with a
  buffer of its own; the bytes moved are the same.)
\<close>

record copy_result =
  written :: nat
  cerr :: "go_error option"
  src :: limited_reader
  dst :: response_writer
  writes :: "string list"

definition backlog :: "limited_reader \<Rightarrow> nat" where
  "backlog l = sum_list (map (\<lambda>c. Suc (length c)) (pending (lr_R l)))"

text \<open>A read that reports no error takes something off the backlog.\<close>

lemma Read_progress:
  assumes "0 < blen" and "snd (fst (LimitedReader_Read blen l)) = None"
  shows "backlog (snd (LimitedReader_Read blen l)) < backlog l"
  using assms
  by (auto simp: LimitedReader_Read_def reader_Read_def backlog_def Let_def
           split: if_splits list.splits)

function copy_loop ::
  "nat \<Rightarrow> limited_reader \<Rightarrow> response_writer \<Rightarrow> nat \<Rightarrow> string list \<Rightarrow> copy_result" where
  "copy_loop blen l w n ws =
     (if blen = 0 then \<lparr>written = n, cerr = None, src = l, dst = w, writes = ws\<rparr>
      else
        let rd = LimitedReader_Read blen l;
            data = fst (fst rd); er = snd (fst rd); l' = snd rd
        in if data \<noteq> [] then
             (let wr = rw_Write data w;
                  ret = (if length data < fst (fst wr)
                         then (0, if snd (fst wr) = None then Some ErrInvalidWrite
                                  else snd (fst wr))
                         else fst wr);
                  nw = fst ret; ew = snd ret; w' = snd wr;
                  n' = n + nw; ws' = ws @ [data]
              in if ew \<noteq> None
                   then \<lparr>written = n', cerr = ew, src = l', dst = w', writes = ws'\<rparr>
                 else if length data \<noteq> nw
                   then \<lparr>written = n', cerr = Some ErrShortWrite, src = l', dst = w',
                         writes = ws'\<rparr>
                 else if er \<noteq> None
                   then \<lparr>written = n', cerr = (if er \<noteq> Some EOF then er else None),
                         src = l', dst = w', writes = ws'\<rparr>
                 else copy_loop blen l' w' n' ws')
           else if er \<noteq> None
             then \<lparr>written = n, cerr = (if er \<noteq> Some EOF then er else None),
                   src = l', dst = w, writes = ws\<rparr>
           else copy_loop blen l' w n ws)"
  by pat_completeness auto
termination
  by (relation "measure (\<lambda>(blen, l, w, n, ws). backlog l)") (auto intro: Read_progress)

declare copy_loop.simps [simp del]

definition CopyBuffer :: "response_writer \<Rightarrow> limited_reader \<Rightarrow> string \<Rightarrow> string + copy_result" where
  "CopyBuffer w l buf =
     (if buf = [] then Inl ''empty buffer in CopyBuffer''
      else Inr (copy_loop (length buf) l w 0 []))"

text \<open>The bytes a limited reader's source has not delivered yet.\<close>

definition stream :: "limited_reader \<Rightarrow> string" where
  "stream l = concat (pending (lr_R l))"

subsection \<open>The deferred-header wrapper \<^verbatim>\<open>responseLogWriter\<close>\<close>

text \<open>
  The struct embeds an \<^verbatim>\<open>http.ResponseWriter\<close> (\<open>None\<close> is the nil interface; a
  method call through it panics) and writes through \<open>body\<close>. A panic is \<open>Inl\<close>.
\<close>

record responseLogWriter =
  ResponseWriter :: "response_writer option"
  body :: bufio_writer
  header :: "(string \<times> string) list"
  status :: int
  size_w :: int

text \<open>
  \<^verbatim>\<open>&responseLogWriter{body: bufrw.Writer, header: make(http.Header)}\<close>: the
  fields the literal does not name have Go's zero values.
\<close>

definition new_responseLogWriter :: "bufio_writer \<Rightarrow> responseLogWriter" where
  "new_responseLogWriter bw =
     \<lparr>ResponseWriter = None, body = bw, header = [], status = 0, size_w = 0\<rparr>"

definition nil_dereference :: string where
  "nil_dereference = ''runtime error: invalid memory address or nil pointer dereference''"

definition WriteString :: "string \<Rightarrow> responseLogWriter \<Rightarrow> (nat \<times> go_error option) \<times> bufio_writer" where
  "WriteString s w = bw_Write s (body w)"

definition WriteHeader :: "int \<Rightarrow> responseLogWriter \<Rightarrow> responseLogWriter" where
  "WriteHeader code w = (if code > 0 \<and> status w \<noteq> code then w\<lparr>status := code\<rparr> else w)"

definition Status :: "responseLogWriter \<Rightarrow> int" where
  "Status c = status c"

definition Size :: "responseLogWriter \<Rightarrow> int" where
  "Size c = size_w c"

definition Written :: "responseLogWriter \<Rightarrow> bool" where
  "Written c = (size_w c \<noteq> noWritten)"

definition WriteHeaderNow :: "responseLogWriter \<Rightarrow> string + responseLogWriter" where
  "WriteHeaderNow w =
     (if \<not> Written w then
        (case ResponseWriter w of
           None \<Rightarrow> Inl nil_dereference
         | Some rw \<Rightarrow> Inr (w\<lparr>size_w := 0, ResponseWriter := Some (rw_WriteHeader (status w) rw)\<rparr>))
      else Inr w)"

definition Write ::
  "string \<Rightarrow> responseLogWriter \<Rightarrow> string + ((nat \<times> go_error option) \<times> responseLogWriter)" where
  "Write data w =
     (case WriteHeaderNow w of
        Inl p \<Rightarrow> Inl p
      | Inr w1 \<Rightarrow>
          let res = bw_Write data (body w1)
          in Inr (fst res, w1\<lparr>body := snd res, size_w := size_w w1 + int (fst (fst res))\<rparr>))"

definition Flush :: "responseLogWriter \<Rightarrow> string + responseLogWriter" where
  "Flush w =
     (case WriteHeaderNow w of
        Inl p \<Rightarrow> Inl p
      | Inr w1 \<Rightarrow> Inr (w1\<lparr>body := snd (bw_Flush (body w1))\<rparr>))"

definition Header :: "responseLogWriter \<Rightarrow> (string \<times> string) list" where
  "Header w = header w"

subsection \<open>The registry, the requests and the environment\<close>

text \<open>
  \<^verbatim>\<open>clients\<close> maps a file ID to a pointer; \<open>heap\<close> holds the \<^verbatim>\<open>client\<close>
  structs and \<open>writers\<close> the response writers of the requests in flight, both by
  address, so that \<^verbatim>\<open>client.receiver = &w\<close> is an address. Channels are numbers;
  \<open>fresh\<close> is the next unused address or channel. A nil channel or pointer is
  \<open>None\<close>.
\<close>

record client =
  fileName :: string
  clientConnected :: nat
  downloadCompleted :: "nat option"
  receiving :: bool
  receiver :: "nat option"

text \<open>
  Where a download stands in the \<^verbatim>\<open>GET\<close> branch. The lookup runs under the read
  lock and the three assignments of the claim under the write lock, so each is one
  step; the test of \<^verbatim>\<open>client.receiving\<close> between them holds no lock and is a
  step of its own. \<open>AtSend\<close> is before \<^verbatim>\<open>client.clientConnected <- true\<close> and
  \<open>Sending\<close> inside it; \<open>AtWait\<close> is before \<^verbatim>\<open><-client.downloadCompleted\<close> and
  \<open>Receiving\<close> inside it, on the channel the field held when the statement was
  reached (\<open>Stuck\<close> when it held nil).
\<close>

datatype get_pc =
    AtLookup
  | AtCheck nat
  | AtClaim nat
  | AtSend nat
  | Sending nat
  | AtWait nat
  | Receiving nat
  | Stuck
  | GetReturned

text \<open>
  The shared state also holds the downloads in flight: \<open>gets\<close> is where the download
  that answers on the writer at an address stands (one that has not arrived yet is
  \<open>AtLookup\<close>), and every channel, being unbuffered, has the queue of the downloads
  blocked sending on it and the queue of those blocked receiving from it, first
  come first.
\<close>

record state =
  clients :: "string \<rightharpoonup> nat"
  heap :: "nat \<Rightarrow> client"
  writers :: "nat \<Rightarrow> response_writer"
  fresh :: nat
  gets :: "nat \<Rightarrow> get_pc"
  sendq :: "nat \<Rightarrow> nat list"
  recvq :: "nat \<Rightarrow> nat list"

record config =
  downloadBaseUrl :: string
  validUserName :: string
  validPassword :: string

record request =
  Method :: string
  URL :: string
  BasicAuth :: "(string \<times> string) option"
  ContentLength :: int

text \<open>
  What the handler asks of its surroundings during one upload: the clock
  (\<^verbatim>\<open>time.Now().UnixNano()\<close>); the generator (\<open>rand_read seed len\<close> is what
  \<^verbatim>\<open>Read\<close> of a generator seeded with \<open>seed\<close> stores into a slice of \<open>len\<close>
  bytes, with its \<open>n\<close> and \<open>err\<close>); the stale content of the pooled buffer;
  whether the connection can be hijacked; the two halves of the hijacked connection;
  the instants, in nanoseconds after the \<^verbatim>\<open>select\<close> is entered, at which the
  first download's send on \<^verbatim>\<open>clientConnected\<close> is there, at which the request's
  context is done, and at which the uploader's peer leaves (\<open>None\<close>: never); the
  random choice of \<^verbatim>\<open>select\<close> among cases ready at the same instant; and the
  steps the downloads take in between. \<open>others e k\<close> lists, in order, the downloads
  (the address of the writer and the requested name) that take their next step
  before the upload's \<open>k\<close>-th access to what it shares with them.
\<close>

record env =
  now :: int
  rand_read :: "int \<Rightarrow> nat \<Rightarrow> string \<times> nat \<times> go_error option"
  pool_content :: string
  hijacker :: bool
  hijack_err :: "go_error option"
  conn_reader :: reader
  conn_writer :: bufio_writer
  pair_at :: "nat option"
  done_at :: "nat option"
  peer_gone_at :: "nat option"
  pick :: nat
  others :: "nat \<Rightarrow> (nat \<times> string) list"

text \<open>
  The upload's accesses to the shared state after it has registered: the
  \<^verbatim>\<open>select\<close>, the two reads of \<^verbatim>\<open>newClient.receiver\<close> (for the header and for
  the copy), the read of \<^verbatim>\<open>newClient.downloadCompleted\<close> by the deferred send,
  the send itself, and the deferred \<^verbatim>\<open>delete\<close>.
\<close>

definition during_wait :: nat where
  "during_wait = 0"

definition before_header :: nat where
  "before_header = 1"

definition before_copy :: nat where
  "before_copy = 2"

definition before_signal :: nat where
  "before_signal = 3"

definition during_signal :: nat where
  "during_signal = 4"

definition before_delete :: nat where
  "before_delete = 5"

text \<open>A slice of exactly \<open>n\<close> bytes whose content the environment chose.\<close>

definition fill :: "nat \<Rightarrow> string \<Rightarrow> string" where
  "fill n xs = take n (xs @ replicate n (CHR 0x00))"

definition bufPool_Get :: "env \<Rightarrow> string" where
  "bufPool_Get e = fill bufferSize (pool_content e)"

subsection \<open>One flow's record of what it did\<close>

datatype select_case = ClientConnected | ContextDone | TimeAfter

datatype event =
    PoolGet
  | PoolPut
  | Register string nat
  | Delete string
  | Hijacked
  | ConnClose
  | RespWrite string
  | RespFlush
  | HeaderAdd nat string string
  | SinkWrite nat string
  | Copied nat "go_error option"
  | SendCompleted nat

datatype deferred = DeferPut | DeferDelete string | DeferClose | DeferSend nat

datatype outcome = Returned | Panicked string | Blocked

definition reply :: "nat \<Rightarrow> (response_writer \<Rightarrow> response_writer) \<Rightarrow> state \<Rightarrow> state" where
  "reply wref f s = s\<lparr>writers := (writers s)(wref := f (writers s wref))\<rparr>"

subsection \<open>Routing\<close>

definition LastIndex :: "string \<Rightarrow> string \<Rightarrow> int" where
  "LastIndex s sub =
     (case filter (\<lambda>i. take (length sub) (drop i s) = sub)
             (rev [0..<Suc (length s - length sub)]) of
        [] \<Rightarrow> - 1
      | i # _ \<Rightarrow> int i)"

datatype route = NoRoute | Upload string | Download string | OtherMethod

definition route :: "request \<Rightarrow> route" where
  "route r =
     (let index = LastIndex (URL r) (''/'' @ prefix @ ''/'') in
      if index < 0 then NoRoute
      else
        let name = drop (nat index + length prefix + 2) (URL r) in
        if Method r = ''POST'' then Upload name
        else if Method r = ''GET'' then Download name
        else OtherMethod)"

subsection \<open>The download flow (\<^verbatim>\<open>GET\<close>)\<close>

text \<open>
  The flow statement by statement, so that downloads can be interleaved with each
  other and with an upload. A download that finds no receiver for its send, or no
  sender for its receive, joins the channel's queue and stays there until the
  uploader takes it off.
\<close>

definition already_message :: string where
  "already_message = ''File already being received by another client.'' @ [LF]"

fun get_step :: "nat \<Rightarrow> string \<Rightarrow> get_pc \<times> state \<Rightarrow> get_pc \<times> state" where
  "get_step wref name (AtLookup, s) =
     (case clients s name of
        Some p \<Rightarrow> (AtCheck p, s)
      | None \<Rightarrow> (GetReturned, reply wref http_NotFound s))"
| "get_step wref name (AtCheck p, s) =
     (if \<not> receiving (heap s p) then (AtClaim p, s)
      else (GetReturned, reply wref (http_Error already_message StatusBadRequest) s))"
| "get_step wref name (AtClaim p, s) =
     (AtSend p,
      s\<lparr>heap := (heap s)(p := (heap s p)\<lparr>receiver := Some wref, receiving := True,
                                         downloadCompleted := Some (fresh s)\<rparr>),
        fresh := Suc (fresh s)\<rparr>)"
| "get_step wref name (AtSend p, s) =
     (Sending p,
      s\<lparr>sendq := (sendq s)(clientConnected (heap s p)
                             := sendq s (clientConnected (heap s p)) @ [wref])\<rparr>)"
| "get_step wref name (Sending p, s) = (Sending p, s)"
| "get_step wref name (AtWait p, s) =
     (case downloadCompleted (heap s p) of
        None \<Rightarrow> (Stuck, s)
      | Some ch \<Rightarrow> (Receiving ch, s\<lparr>recvq := (recvq s)(ch := recvq s ch @ [wref])\<rparr>))"
| "get_step wref name (Receiving ch, s) = (Receiving ch, s)"
| "get_step wref name (Stuck, s) = (Stuck, s)"
| "get_step wref name (GetReturned, s) = (GetReturned, s)"

text \<open>One download alone, up to the point where it returns or reaches its send.\<close>

definition get_start :: "nat \<Rightarrow> string \<Rightarrow> state \<Rightarrow> get_pc \<times> state" where
  "get_start wref name s =
     get_step wref name (get_step wref name (get_step wref name (AtLookup, s)))"

text \<open>
  Several downloads of the same name, the \<open>i\<close>-th writing to the writer at address
  \<open>i\<close>: a schedule names, step by step, the download that moves.
\<close>

fun run_gets :: "string \<Rightarrow> nat list \<Rightarrow> get_pc list \<times> state \<Rightarrow> get_pc list \<times> state" where
  "run_gets name [] (pcs, s) = (pcs, s)"
| "run_gets name (i # sched) (pcs, s) =
     (if i < length pcs
      then (case get_step i name (pcs ! i, s) of
              (pc', s') \<Rightarrow> run_gets name sched (pcs[i := pc'], s'))
      else run_gets name sched (pcs, s))"

text \<open>
  The same step for a download whose place is kept in the shared state, and the
  steps the downloads take before the upload's \<open>k\<close>-th access.
\<close>

definition download_step :: "nat \<times> string \<Rightarrow> state \<Rightarrow> state" where
  "download_step d s =
     (case get_step (fst d) (snd d) (gets s (fst d), s) of
        (pc', s') \<Rightarrow> s'\<lparr>gets := (gets s')(fst d := pc')\<rparr>)"

definition meanwhile :: "env \<Rightarrow> nat \<Rightarrow> state \<Rightarrow> state" where
  "meanwhile e k s = fold download_step (others e k) s"

text \<open>
  A download past its test of \<^verbatim>\<open>receiving\<close> writes nothing to its response by
  itself: it claims, sends, waits, and returns.
\<close>

fun quiet :: "get_pc \<Rightarrow> bool" where
  "quiet AtLookup = False"
| "quiet (AtCheck p) = False"
| "quiet pc = True"

subsection \<open>The two channel operations of the upload\<close>

text \<open>
  \<^verbatim>\<open><-receiverCh\<close> takes the value of the first download blocked sending on the
  channel, which then goes on to wait for the completion signal.
\<close>

fun get_sent :: "get_pc \<Rightarrow> get_pc" where
  "get_sent (Sending p) = AtWait p"
| "get_sent pc = pc"

definition receive_from :: "nat \<Rightarrow> state \<Rightarrow> state" where
  "receive_from ch s =
     (case sendq s ch of
        [] \<Rightarrow> s
      | w # ws \<Rightarrow> s\<lparr>sendq := (sendq s)(ch := ws), gets := (gets s)(w := get_sent (gets s w))\<rparr>)"

text \<open>
  A send on an unbuffered channel completes only when a receiver is blocked on that
  very channel; it hands the value to the first of them. The download that receives
  the completion signal returns from the handler, and the server completes its
  response. Without a receiver the send does not return (\<open>None\<close>).
\<close>

definition get_completed :: "nat \<Rightarrow> state \<Rightarrow> state" where
  "get_completed w s = (reply w rw_finish s)\<lparr>gets := (gets s)(w := GetReturned)\<rparr>"

definition send_on :: "nat \<Rightarrow> state \<Rightarrow> state option" where
  "send_on ch s =
     (case recvq s ch of
        [] \<Rightarrow> None
      | w # ws \<Rightarrow> Some (get_completed w (s\<lparr>recvq := (recvq s)(ch := ws)\<rparr>)))"

subsection \<open>Deferred calls\<close>

text \<open>
  The deferred \<^verbatim>\<open>newClient.downloadCompleted <- true\<close> reads the field when it
  runs; a nil channel, or a channel from which no download ever receives, keeps the
  flow there (\<open>Inl\<close>, with the state in which it stays).
\<close>

definition completion_send :: "env \<Rightarrow> nat \<Rightarrow> state \<Rightarrow> state + nat \<times> state" where
  "completion_send e p s =
     (let s1 = meanwhile e before_signal s in
      case downloadCompleted (heap s1 p) of
        None \<Rightarrow> Inl s1
      | Some ch \<Rightarrow>
          (let s2 = meanwhile e during_signal s1 in
           case send_on ch s2 of
             None \<Rightarrow> Inl s2
           | Some s3 \<Rightarrow> Inr (ch, s3)))"

definition delete_entry :: "env \<Rightarrow> string \<Rightarrow> state \<Rightarrow> state" where
  "delete_entry e fileID s =
     (let s1 = meanwhile e before_delete s in s1\<lparr>clients := (clients s1)(fileID := None)\<rparr>)"

text \<open>
  Deferred calls run last-in first-out when the handler returns or panics; the list
  has the latest \<^verbatim>\<open>defer\<close> first. When one of them does not return (\<open>False\<close>),
  the calls after it do not run.
\<close>

fun run_defers :: "env \<Rightarrow> deferred list \<Rightarrow> event list \<Rightarrow> state \<Rightarrow> bool \<times> event list \<times> state" where
  "run_defers e [] evs s = (True, evs, s)"
| "run_defers e (DeferPut # ds) evs s = run_defers e ds (evs @ [PoolPut]) s"
| "run_defers e (DeferDelete fileID # ds) evs s =
     run_defers e ds (evs @ [Delete fileID]) (delete_entry e fileID s)"
| "run_defers e (DeferClose # ds) evs s = run_defers e ds (evs @ [ConnClose]) s"
| "run_defers e (DeferSend p # ds) evs s =
     (case completion_send e p s of
        Inl s' \<Rightarrow> (False, evs, s')
      | Inr (ch, s') \<Rightarrow> run_defers e ds (evs @ [SendCompleted ch]) s')"

subsection \<open>The upload flow (\<^verbatim>\<open>POST\<close>)\<close>

text \<open>
  The locals of one upload once the connection is hijacked: the wrapper \<open>w\<close> over
  \<^verbatim>\<open>bufrw.Writer\<close>, the reading half \<^verbatim>\<open>bufrw\<close>, the pooled buffer, the
  deferred calls and the flow's events so far.
\<close>

record frame =
  f_fileName :: string
  f_fileID :: string
  f_newClient :: nat
  f_receiverCh :: nat
  f_w :: responseLogWriter
  f_bufrw :: reader
  f_buffer :: string
  f_ContentLength :: int
  f_defers :: "deferred list"
  f_evs :: "event list"

text \<open>
  How a flow ends: how it left the handler, its events, the shared state, and the
  wrapper over its hijacked connection (\<open>None\<close> when it never hijacked), in which
  \<open>bw_wire\<close> is what the connection received from it.
\<close>

type_synonym ending = "outcome \<times> event list \<times> state \<times> responseLogWriter option"

datatype post_status = Finished outcome "event list" "responseLogWriter option" | Waiting frame

definition leave ::
  "env \<Rightarrow> outcome \<Rightarrow> deferred list \<Rightarrow> event list \<Rightarrow> responseLogWriter option \<Rightarrow> state \<Rightarrow> ending" where
  "leave e out ds evs w s =
     (case run_defers e ds evs s of
        (True, evs', s') \<Rightarrow> (out, evs', s', w)
      | (False, evs', s') \<Rightarrow> (Blocked, evs', s', w))"

text \<open>\<^verbatim>\<open>w.Write([]byte(msg))\<close> followed by \<^verbatim>\<open>bufrw.Flush()\<close>, as every phase does.\<close>

definition say :: "string \<Rightarrow> frame \<Rightarrow> string + frame" where
  "say msg fr =
     (case Write msg (f_w fr) of
        Inl pn \<Rightarrow> Inl pn
      | Inr res \<Rightarrow>
          Inr (fr\<lparr>f_w := (snd res)\<lparr>body := snd (bw_Flush (body (snd res)))\<rparr>,
                  f_evs := f_evs fr @ [RespWrite msg, RespFlush]\<rparr>))"

definition finish :: "env \<Rightarrow> outcome \<Rightarrow> frame \<Rightarrow> state \<Rightarrow> ending" where
  "finish e out fr s = leave e out (f_defers fr) (f_evs fr) (Some (f_w fr)) s"

definition finished :: "ending \<Rightarrow> post_status \<times> state" where
  "finished res =
     (Finished (fst res) (fst (snd res)) (snd (snd (snd res))), fst (snd (snd res)))"

definition authorized :: "config \<Rightarrow> request \<Rightarrow> bool" where
  "authorized cfg r =
     (case BasicAuth r of
        None \<Rightarrow> False
      | Some (user, pass) \<Rightarrow> \<not> (user \<noteq> validUserName cfg \<or> pass \<noteq> validPassword cfg))"

text \<open>
  The file ID: 36 bytes from a generator seeded with the clock, encoded into the
  pooled buffer, of which the first \<^verbatim>\<open>StdEncoding.EncodedLen(n)\<close> bytes are the ID.
  The result is the ID and the buffer, or the error of the read.
\<close>

definition generate_fileID :: "env \<Rightarrow> go_error + string \<times> string" where
  "generate_fileID e =
     (case rand_read e (now e) 36 of
        (raw, n, Some err) \<Rightarrow> Inl err
      | (raw, n, None) \<Rightarrow>
          (let b = fill 36 raw;
               encodedLength = EncodedLen n;
               buffer = Encode (bufPool_Get e) b
           in Inr (take encodedLength buffer, buffer)))"

definition bad_request :: "string \<Rightarrow> response_writer \<Rightarrow> response_writer" where
  "bad_request msg w = snd (rw_Write msg (rw_WriteHeader StatusBadRequest w))"

definition exists_message :: string where
  "exists_message = ''File already exists. Choose a different name.''"

text \<open>\<^verbatim>\<open>clients[fileID] = newClient\<close>: a fresh channel and a fresh struct.\<close>

definition register_client :: "string \<Rightarrow> string \<Rightarrow> state \<Rightarrow> state" where
  "register_client name fileID s =
     (let receiverCh = fresh s;
          p = Suc (fresh s);
          newClient = \<lparr>fileName = name, clientConnected = receiverCh,
                       downloadCompleted = None, receiving = False, receiver = None\<rparr>
      in s\<lparr>clients := (clients s)(fileID \<mapsto> p), heap := (heap s)(p := newClient),
           fresh := fresh s + 2\<rparr>)"

definition link_message :: "config \<Rightarrow> string \<Rightarrow> string \<Rightarrow> string" where
  "link_message cfg name fileID =
     ''HTTP/1.1 200 OK'' @ [CR, LF, CR, LF] @ ''To download the file, curl -o '' @ name
       @ '' '' @ downloadBaseUrl cfg @ ''/'' @ prefix @ ''/'' @ fileID @ [LF]"

text \<open>The hijack, the wrapper over the connection, and phase 1 of the response.\<close>

definition hijack_and_greet ::
  "config \<Rightarrow> env \<Rightarrow> nat \<Rightarrow> string \<Rightarrow> request \<Rightarrow> string \<Rightarrow> string \<Rightarrow> nat \<Rightarrow> nat
     \<Rightarrow> state \<Rightarrow> post_status \<times> state" where
  "hijack_and_greet cfg e wref name r fileID buffer receiverCh p s1 =
     (let defers = [DeferDelete fileID, DeferPut];
          evs = [PoolGet, Register fileID p]
      in
        if \<not> hijacker e then
          finished (leave e Returned defers evs None
            (reply wref (http_Error ''webserver doesn't support hijacking''
                           StatusInternalServerError) s1))
        else
          (case hijack_err e of
             Some err \<Rightarrow>
               finished (leave e Returned defers evs None
                 (reply wref (http_Error (error_text err) StatusInternalServerError) s1))
           | None \<Rightarrow>
               (let fr = \<lparr>f_fileName = name, f_fileID = fileID, f_newClient = p,
                          f_receiverCh = receiverCh,
                          f_w = new_responseLogWriter (conn_writer e),
                          f_bufrw = conn_reader e, f_buffer = buffer,
                          f_ContentLength = ContentLength r,
                          f_defers = DeferClose # defers, f_evs = evs @ [Hijacked]\<rparr>
                in
                  (case say (link_message cfg name fileID) fr of
                     Inl pn \<Rightarrow> finished (finish e (Panicked pn) fr s1)
                   | Inr fr1 \<Rightarrow> (Waiting fr1, s1)))))"

text \<open>From the credentials to the \<^verbatim>\<open>select\<close>.\<close>

definition post_start ::
  "config \<Rightarrow> env \<Rightarrow> nat \<Rightarrow> string \<Rightarrow> request \<Rightarrow> state \<Rightarrow> post_status \<times> state" where
  "post_start cfg e wref name r s =
     (if \<not> authorized cfg r then
        (Finished Returned [] None,
         reply wref (http_Error ''Invalid Credentials'' StatusUnauthorized) s)
      else
        (case generate_fileID e of
           Inl err \<Rightarrow> (Finished Returned [] None, reply wref (bad_request (error_text err)) s)
         | Inr (fileID, buffer) \<Rightarrow>
             if clients s fileID \<noteq> None then
               finished (leave e Returned [DeferPut] [PoolGet] None
                 (reply wref (bad_request exists_message) s))
             else
               hijack_and_greet cfg e wref name r fileID buffer (fresh s) (Suc (fresh s))
                 (register_client name fileID s)))"

text \<open>
  The \<^verbatim>\<open>select\<close>: it proceeds at the first instant at which one of its three
  cases is ready, and picks at random among the cases ready then. The timer is
  \<^verbatim>\<open>time.After(120 * time.Second)\<close>, in nanoseconds.
\<close>

definition wait_budget :: nat where
  "wait_budget = 120 * 1000000000"

definition first_instant :: "env \<Rightarrow> nat" where
  "first_instant e =
     (let t = (case pair_at e of None \<Rightarrow> wait_budget | Some tp \<Rightarrow> min tp wait_budget)
      in (case done_at e of None \<Rightarrow> t | Some td \<Rightarrow> min td t))"

definition ready_cases :: "env \<Rightarrow> select_case list" where
  "ready_cases e =
     (if pair_at e = Some (first_instant e) then [ClientConnected] else [])
     @ (if done_at e = Some (first_instant e) then [ContextDone] else [])
     @ (if wait_budget = first_instant e then [TimeAfter] else [])"

definition select_wait :: "env \<Rightarrow> select_case" where
  "select_wait e =
     (case ready_cases e of
        [] \<Rightarrow> TimeAfter
      | c # cs \<Rightarrow> (c # cs) ! (pick e mod length (c # cs)))"

text \<open>
  \<^verbatim>\<open>r.Context()\<close>. \<^verbatim>\<open>net/http\<close> ends a request's context when its background
  read of the connection fails, which is how it notices a peer that leaves; that read
  runs only from the end of the request body until a \<^verbatim>\<open>Hijack\<close>, which stops it.
  Whatever else ends the context (the server's base context) is \<open>done_at\<close>.
\<close>

definition earliest :: "nat option \<Rightarrow> nat option \<Rightarrow> nat option" where
  "earliest a b =
     (case a of
        None \<Rightarrow> b
      | Some x \<Rightarrow> (case b of None \<Rightarrow> Some x | Some y \<Rightarrow> Some (min x y)))"

definition context_done_at :: "bool \<Rightarrow> env \<Rightarrow> nat option" where
  "context_done_at watching e =
     (if watching then earliest (done_at e) (peer_gone_at e) else done_at e)"

text \<open>
  What the \<^verbatim>\<open>select\<close> of an upload can hear: a pairing only when a download is
  blocked sending on \<^verbatim>\<open>receiverCh\<close>, and the end of the request's context as it
  is after the \<^verbatim>\<open>Hijack\<close> of main.go:144, with no read watching the connection.
\<close>

definition heard :: "env \<Rightarrow> state \<Rightarrow> nat \<Rightarrow> env" where
  "heard e s ch =
     e\<lparr>pair_at := (if sendq s ch = [] then None else pair_at e),
       done_at := context_done_at False e\<rparr>"

text \<open>
  After pairing: the deferred completion signal, the content-disposition header on
  the writer \<^verbatim>\<open>newClient.receiver\<close> points to, the copy, limited to
  \<^verbatim>\<open>r.ContentLength\<close>, into the writer it points to then, and phase 3.
\<close>

definition success_message :: "string \<Rightarrow> string" where
  "success_message name = name @ '' was transferred successfully.'' @ [LF]"

definition disposition :: "string \<Rightarrow> string" where
  "disposition name = ''attachment; filename='' @ [DQ] @ name @ [DQ]"

definition report :: "env \<Rightarrow> string \<Rightarrow> frame \<Rightarrow> state \<Rightarrow> ending" where
  "report e msg fr s =
     (case say msg fr of
        Inl pn \<Rightarrow> finish e (Panicked pn) fr s
      | Inr fr1 \<Rightarrow> finish e Returned fr1 s)"

definition copy_to_receiver :: "env \<Rightarrow> frame \<Rightarrow> state \<Rightarrow> ending" where
  "copy_to_receiver e fr s0 =
     (let s = meanwhile e before_copy s0 in
      (case receiver (heap s (f_newClient fr)) of
         None \<Rightarrow> finish e (Panicked nil_dereference) fr s
       | Some rref \<Rightarrow>
           (case CopyBuffer (writers s rref)
                   (LimitReader (f_bufrw fr) (f_ContentLength fr)) (f_buffer fr) of
              Inl pn \<Rightarrow> finish e (Panicked pn) fr s
            | Inr res \<Rightarrow>
                (let s2 = reply rref (\<lambda>_. dst res) s;
                     fr2 = fr\<lparr>f_bufrw := lr_R (src res),
                              f_evs := f_evs fr @ map (SinkWrite rref) (writes res)
                                         @ [Copied (written res) (cerr res)]\<rparr>
                 in
                   (case cerr res of
                      Some err \<Rightarrow> report e (error_text err) fr2 s2
                    | None \<Rightarrow> report e (success_message (f_fileName fr2)) fr2 s2)))))"

definition transfer :: "env \<Rightarrow> frame \<Rightarrow> state \<Rightarrow> ending" where
  "transfer e fr0 s0 =
     (let fr = fr0\<lparr>f_defers := DeferSend (f_newClient fr0) # f_defers fr0\<rparr>;
          s = meanwhile e before_header s0
      in
      (case receiver (heap s (f_newClient fr)) of
         None \<Rightarrow> finish e (Panicked nil_dereference) fr s
       | Some rref \<Rightarrow>
           copy_to_receiver e
             (fr\<lparr>f_evs := f_evs fr @ [HeaderAdd rref ''content-disposition''
                                        (disposition (f_fileName fr))]\<rparr>)
             (reply rref (Header_Add ''content-disposition'' (disposition (f_fileName fr))) s)))"

definition post_resume :: "env \<Rightarrow> select_case \<Rightarrow> frame \<Rightarrow> state \<Rightarrow> ending" where
  "post_resume e c fr s =
     (case c of
        ClientConnected \<Rightarrow>
          (case say (''Client connected.'' @ [LF]) fr of
             Inl pn \<Rightarrow> finish e (Panicked pn) fr (receive_from (f_receiverCh fr) s)
           | Inr fr1 \<Rightarrow> transfer e fr1 (receive_from (f_receiverCh fr) s))
      | ContextDone \<Rightarrow> report e (''Request disconnected.'' @ [LF]) fr s
      | TimeAfter \<Rightarrow> report e (''Timed out. No client connected in 120 seconds.'' @ [LF]) fr s)"

text \<open>
  The whole upload. \<open>at_select\<close> is the shared state when the \<^verbatim>\<open>select\<close>
  proceeds, \<open>at_header\<close> the one in which main.go:176 reads \<^verbatim>\<open>newClient.receiver\<close>
  and \<open>at_copy\<close> the one in which main.go:177 reads it again, once the header has
  been added to the writer at \<open>rref\<close>.
\<close>

definition at_select :: "env \<Rightarrow> string \<Rightarrow> string \<Rightarrow> state \<Rightarrow> state" where
  "at_select e name fileID s = meanwhile e during_wait (register_client name fileID s)"

definition at_header :: "env \<Rightarrow> string \<Rightarrow> string \<Rightarrow> state \<Rightarrow> state" where
  "at_header e name fileID s =
     meanwhile e before_header (receive_from (fresh s) (at_select e name fileID s))"

definition at_copy :: "env \<Rightarrow> string \<Rightarrow> string \<Rightarrow> state \<Rightarrow> nat \<Rightarrow> state" where
  "at_copy e name fileID s rref =
     meanwhile e before_copy
       (reply rref (Header_Add ''content-disposition'' (disposition name))
          (at_header e name fileID s))"

definition post_handler ::
  "config \<Rightarrow> env \<Rightarrow> nat \<Rightarrow> string \<Rightarrow> request \<Rightarrow> state \<Rightarrow> ending" where
  "post_handler cfg e wref name r s =
     (case post_start cfg e wref name r s of
        (Finished out evs w, s1) \<Rightarrow> (out, evs, s1, w)
      | (Waiting fr, s1) \<Rightarrow>
          (let s2 = meanwhile e during_wait s1
           in post_resume e (select_wait (heard e s2 (f_receiverCh fr))) fr s2))"

subsection \<open>The handler\<close>

text \<open>
  The closure registered for \<^verbatim>\<open>/\<close>: a URL without the prefix is answered 404, a
  \<^verbatim>\<open>POST\<close> is an upload, a \<^verbatim>\<open>GET\<close> a download (shown up to the point where it
  returns or reaches its send), and any other method returns without a word.
\<close>

datatype flow =
    Answered state
  | Uploaded ending
  | Downloading "get_pc \<times> state"

definition handler :: "config \<Rightarrow> env \<Rightarrow> nat \<Rightarrow> request \<Rightarrow> state \<Rightarrow> flow" where
  "handler cfg e wref r s =
     (case route r of
        NoRoute \<Rightarrow> Answered (reply wref http_NotFound s)
      | Upload name \<Rightarrow> Uploaded (post_handler cfg e wref name r s)
      | Download name \<Rightarrow> Downloading (get_start wref name s)
      | OtherMethod \<Rightarrow> Answered s)"

subsection \<open>Reading a flow's events\<close>

text \<open>
  What the upload handed to \<^verbatim>\<open>w.Write\<close>, the completion signals it sent, and
  what it handed to the downloader's writer, each in order.
\<close>

fun responses :: "event list \<Rightarrow> string list" where
  "responses [] = []"
| "responses (RespWrite msg # evs) = msg # responses evs"
| "responses (ev # evs) = responses evs"

fun signals :: "event list \<Rightarrow> nat list" where
  "signals [] = []"
| "signals (SendCompleted ch # evs) = ch # signals evs"
| "signals (ev # evs) = signals evs"

fun handed :: "event list \<Rightarrow> string list" where
  "handed [] = []"
| "handed (SinkWrite rref data # evs) = data # handed evs"
| "handed (ev # evs) = handed evs"

definition phase2_message :: "select_case \<Rightarrow> string" where
  "phase2_message c =
     (case c of
        ClientConnected \<Rightarrow> ''Client connected.'' @ [LF]
      | ContextDone \<Rightarrow> ''Request disconnected.'' @ [LF]
      | TimeAfter \<Rightarrow> ''Timed out. No client connected in 120 seconds.'' @ [LF])"

definition final_message :: "string \<Rightarrow> go_error option \<Rightarrow> string" where
  "final_message name err =
     (case err of Some er \<Rightarrow> error_text er | None \<Rightarrow> success_message name)"

text \<open>
  The wrapper after \<^verbatim>\<open>w.Write([]byte(msg))\<close> and \<^verbatim>\<open>bufrw.Flush()\<close>, when
  neither panics.
\<close>

definition spoken :: "string \<Rightarrow> responseLogWriter \<Rightarrow> responseLogWriter" where
  "spoken msg w =
     w\<lparr>size_w := size_w w + int (fst (fst (bw_Write msg (body w)))),
       body := snd (bw_Flush (snd (bw_Write msg (body w))))\<rparr>"

subsection \<open>A sample upload\<close>

text \<open>
  A service with nothing registered, and an upload of \<^verbatim>\<open>hello.txt\<close> that declares
  five bytes and whose connection delivers \<^verbatim>\<open>hello world\<close> in two pieces. A
  download of the issued link, answering on the writer at address 1, arrives during
  the wait, claims the transfer and sends; once its send is taken it goes on to
  receive the completion signal.
\<close>

definition sample_writer :: response_writer where
  "sample_writer = \<lparr>rw_header = [], rw_status = None, rw_sent = [], rw_body = [], rw_room = None\<rparr>"

definition sample_client :: client where
  "sample_client = \<lparr>fileName = [], clientConnected = 0, downloadCompleted = None,
                     receiving = False, receiver = None\<rparr>"

definition sample_state :: state where
  "sample_state = \<lparr>clients = Map.empty, heap = (\<lambda>_. sample_client),
                    writers = (\<lambda>_. sample_writer), fresh = 0,
                    gets = (\<lambda>_. AtLookup), sendq = (\<lambda>_. []), recvq = (\<lambda>_. [])\<rparr>"

definition sample_config :: config where
  "sample_config = \<lparr>downloadBaseUrl = ''http://localhost:3000'', validUserName = ''user'',
                     validPassword = ''password''\<rparr>"

definition sample_request :: request where
  "sample_request = \<lparr>Method = ''POST'', URL = ''/streamer/hello.txt'',
                      BasicAuth = Some (''user'', ''password''), ContentLength = 5\<rparr>"

definition sample_ID :: string where
  "sample_ID = ''YWJjZGVmZ2hpamtsbW5vcHFyc3R1dnd4eXowMTIzNDU2Nzg5''"

definition sample_buffer :: string where
  "sample_buffer = sample_ID @ replicate 32720 (CHR 0x00)"

definition sample_others :: "nat \<Rightarrow> (nat \<times> string) list" where
  "sample_others k =
     (if k = during_wait
      then [(1, sample_ID), (1, sample_ID), (1, sample_ID), (1, sample_ID)]
      else if k = before_header then [(1, sample_ID)]
      else [])"

definition sample_env :: env where
  "sample_env =
     \<lparr>now = 1700000000000000000,
      rand_read = (\<lambda>seed n. (''abcdefghijklmnopqrstuvwxyz0123456789'', n, None)),
      pool_content = [],
      hijacker = True,
      hijack_err = None,
      conn_reader = \<lparr>pending = [''hel'', ''lo world''], fin = EOF\<rparr>,
      conn_writer = \<lparr>bw_buf = [], bw_wire = [], bw_err = None, bw_room = None\<rparr>,
      pair_at = Some 1000000000,
      done_at = None,
      peer_gone_at = None,
      pick = 0,
      others = sample_others\<rparr>"

text \<open>
  Variations of the sample. The upload declares no length (\<^verbatim>\<open>ContentLength\<close> is
  -1). No downloader comes. The generator fails. The issued ID is already
  registered. The transfer is already claimed by the download that answers on the
  writer at address 1.
\<close>

definition chunked_request :: request where
  "chunked_request = sample_request\<lparr>ContentLength := - 1\<rparr>"

definition lonely_env :: env where
  "lonely_env = sample_env\<lparr>pair_at := None, others := (\<lambda>k. [])\<rparr>"

definition dry_env :: env where
  "dry_env = sample_env\<lparr>rand_read := (\<lambda>seed n. ([], 0, Some (Err ''no entropy'')))\<rparr>"

definition taken_state :: state where
  "taken_state = register_client ''other.bin'' sample_ID sample_state"

definition claimed_state :: state where
  "claimed_state = snd (get_start 1 sample_ID (register_client ''hello.txt'' sample_ID sample_state))"

text \<open>
  Two downloads of the issued link, answering on the writers at addresses 1 and 2,
  arrive during the wait and both pass the test of \<^verbatim>\<open>receiving\<close> before either
  claims. The first claims and sends, and the upload's \<^verbatim>\<open>select\<close> takes its
  send. Before the upload reaches main.go:176 the first goes on to receive from the
  channel it made, and the second claims in its turn and sends.
\<close>

definition racing_others :: "nat \<Rightarrow> (nat \<times> string) list" where
  "racing_others k =
     (if k = during_wait
      then [(1, sample_ID), (2, sample_ID), (1, sample_ID), (2, sample_ID),
            (1, sample_ID), (1, sample_ID)]
      else if k = before_header then [(1, sample_ID), (2, sample_ID), (2, sample_ID)]
      else [])"

definition racing_env :: env where
  "racing_env = sample_env\<lparr>others := racing_others\<rparr>"

text \<open>
  The uploader's peer leaves two seconds into the wait: in one run the download
  pairs at four seconds, in the other no download comes.
\<close>

definition gone_env :: env where
  "gone_env = sample_env\<lparr>pair_at := Some 4000000000, peer_gone_at := Some 2000000000\<rparr>"

definition forsaken_env :: env where
  "forsaken_env = lonely_env\<lparr>peer_gone_at := Some 2000000000\<rparr>"

definition sample_upload :: ending where
  "sample_upload = post_handler sample_config sample_env 0 ''hello.txt'' sample_request sample_state"

definition chunked_upload :: ending where
  "chunked_upload =
     post_handler sample_config sample_env 0 ''hello.txt'' chunked_request sample_state"

definition taken_upload :: ending where
  "taken_upload =
     post_handler sample_config sample_env 0 ''hello.txt'' sample_request taken_state"

definition racing_upload :: ending where
  "racing_upload =
     post_handler sample_config racing_env 0 ''hello.txt'' sample_request sample_state"

definition gone_upload :: ending where
  "gone_upload =
     post_handler sample_config gone_env 0 ''hello.txt'' sample_request sample_state"

definition forsaken_upload :: ending where
  "forsaken_upload =
     post_handler sample_config forsaken_env 0 ''hello.txt'' sample_request sample_state"

section \<open>Properties of the model\<close>

subsection \<open>One read, one write, and the copy loop\<close>

lemma Read_facts:
  assumes "LimitedReader_Read blen l = ((data, er), l')"
  shows "data @ stream l' = stream l"
    and "lr_N l' = lr_N l - int (length data)"
    and "0 \<le> lr_N l \<Longrightarrow> 0 \<le> lr_N l'"
    and "lr_N l \<le> 0 \<Longrightarrow> data = []"
    and "fin (lr_R l') = fin (lr_R l)"
    and "er \<noteq> None \<Longrightarrow> data = []"
    and "er \<noteq> None \<Longrightarrow> lr_N l' \<le> 0 \<and> er = Some EOF \<or> pending (lr_R l') = [] \<and> er = Some (fin (lr_R l))"
  using assms
  by (auto simp: LimitedReader_Read_def reader_Read_def stream_def Let_def
           split: if_splits list.splits)

lemma Write_facts:
  assumes "rw_Write data w = ((nw, ew), w')"
  shows "nw \<le> length data"
    and "rw_body w' = rw_body w @ take nw data"
    and "ew = None \<Longrightarrow> nw = length data"
    and "rw_header w' = rw_header w"
    and "rw_status w' = Some (case rw_status w of None \<Rightarrow> StatusOK | Some c \<Rightarrow> c)"
    and "rw_sent w' = (case rw_status w of None \<Rightarrow> rw_header w | Some c \<Rightarrow> rw_sent w)"
  using assms
  by (auto simp: rw_Write_def rw_WriteHeader_def Let_def split: if_splits option.splits)

lemma Read_all:
  assumes "LimitedReader_Read blen l = ((data, er), l')"
  shows "data @ stream l' = stream l \<and> lr_N l' = lr_N l - int (length data)
     \<and> (0 \<le> lr_N l \<longrightarrow> 0 \<le> lr_N l') \<and> fin (lr_R l') = fin (lr_R l)
     \<and> (er \<noteq> None \<longrightarrow> lr_N l' \<le> 0 \<and> er = Some EOF
            \<or> pending (lr_R l') = [] \<and> er = Some (fin (lr_R l)))"
  using Read_facts [OF assms] by blast

lemma Write_all:
  assumes "rw_Write data w = ((nw, ew), w')"
  shows "nw \<le> length data \<and> rw_body w' = rw_body w @ take nw data
     \<and> rw_header w' = rw_header w
     \<and> rw_status w' = Some (case rw_status w of None \<Rightarrow> StatusOK | Some c \<Rightarrow> c)
     \<and> rw_sent w' = (case rw_status w of None \<Rightarrow> rw_header w | Some c \<Rightarrow> rw_sent w)"
  using Write_facts [OF assms] by blast


lemma copy_loop_step:
  assumes "0 < blen"
    and rd: "LimitedReader_Read blen l = ((data, er), l')"
    and wr: "rw_Write data w = ((nw, ew), w')"
  shows "copy_loop blen l w n ws =
     (if data \<noteq> [] then
        (if ew \<noteq> None
         then \<lparr>written = n + nw, cerr = ew, src = l', dst = w', writes = ws @ [data]\<rparr>
         else copy_loop blen l' w' (n + nw) (ws @ [data]))
      else if er \<noteq> None
        then \<lparr>written = n, cerr = (if er \<noteq> Some EOF then er else None),
              src = l', dst = w, writes = ws\<rparr>
      else copy_loop blen l' w n ws)"
  using assms(1) rd wr Write_facts(1) [OF wr] Write_facts(3) [OF wr] Read_facts(6) [OF rd]
  by (subst copy_loop.simps) (auto simp: Let_def)

lemma copy_loop_cases [consumes 1, case_names stop fail skip go]:
  assumes "0 < blen"
    and stop: "\<And>l w n ws er l'.
        LimitedReader_Read blen l = (([], Some er), l') \<Longrightarrow>
        P l w n ws \<lparr>written = n, cerr = (if er \<noteq> EOF then Some er else None),
                     src = l', dst = w, writes = ws\<rparr>"
    and fail: "\<And>l w n ws data l' nw er w'.
        LimitedReader_Read blen l = ((data, None), l') \<Longrightarrow> data \<noteq> [] \<Longrightarrow>
        rw_Write data w = ((nw, Some er), w') \<Longrightarrow>
        P l w n ws \<lparr>written = n + nw, cerr = Some er, src = l', dst = w',
                     writes = ws @ [data]\<rparr>"
    and skip: "\<And>l w n ws l' res.
        LimitedReader_Read blen l = (([], None), l') \<Longrightarrow>
        P l' w n ws res \<Longrightarrow> P l w n ws res"
    and go: "\<And>l w n ws data l' w' res.
        LimitedReader_Read blen l = ((data, None), l') \<Longrightarrow> data \<noteq> [] \<Longrightarrow>
        rw_Write data w = ((length data, None), w') \<Longrightarrow>
        P l' w' (n + length data) (ws @ [data]) res \<Longrightarrow> P l w n ws res"
  shows "P l w n ws (copy_loop blen l w n ws)"
proof (induction "backlog l" arbitrary: l w n ws rule: less_induct)
  case less
  obtain data er l' where rd: "LimitedReader_Read blen l = ((data, er), l')"
    by (metis prod.exhaust)
  obtain nw ew w' where wr: "rw_Write data w = ((nw, ew), w')"
    by (metis prod.exhaust)
  note step = copy_loop_step [OF assms(1) rd wr, of n ws]
  have smaller: "er = None \<Longrightarrow> backlog l' < backlog l"
    using Read_progress [OF assms(1), of l] rd by simp
  consider (a) "data = []" "er \<noteq> None" | (b) "data \<noteq> []" "ew \<noteq> None"
    | (c) "data = []" "er = None" | (d) "data \<noteq> []" "ew = None"
    by blast
  then show ?case
  proof cases
    case a
    then obtain e where "er = Some e" by auto
    with a rd stop [of l e l' w n ws] show ?thesis by (auto simp: step)
  next
    case b
    then obtain e where e: "ew = Some e" by auto
    have "er = None" using Read_facts(6) [OF rd] b by (cases er) auto
    with b e rd wr fail [of l data l' w nw e w' n ws] show ?thesis by (simp add: step)
  next
    case c
    with rd skip [of l l' w n ws, OF _ less.hyps [OF smaller]] show ?thesis
      by (simp add: step)
  next
    case d
    have er: "er = None" using Read_facts(6) [OF rd] d by (cases er) auto
    have nw: "nw = length data" using Write_facts(3) [OF wr] d by simp
    from d er nw rd wr go [of l data l' w w' n ws, OF _ _ _ less.hyps [OF smaller]]
    show ?thesis by (simp add: step)
  qed
qed

lemma copy_loop_reads:
  "0 < blen \<Longrightarrow>
   concat (writes (copy_loop blen l w n ws)) @ stream (src (copy_loop blen l w n ws))
     = concat ws @ stream l"
  by (induction l w n ws rule: copy_loop_cases) (auto dest!: Read_all)

lemma copy_loop_limit:
  "0 < blen \<Longrightarrow>
   int (length (concat (writes (copy_loop blen l w n ws)))) + lr_N (src (copy_loop blen l w n ws))
     = int (length (concat ws)) + lr_N l \<and>
   (0 \<le> lr_N l \<longrightarrow> 0 \<le> lr_N (src (copy_loop blen l w n ws)))"
  by (induction l w n ws rule: copy_loop_cases) (auto dest!: Read_all)

lemma copy_loop_nothing:
  "0 < blen \<Longrightarrow> lr_N l \<le> 0 \<Longrightarrow>
   copy_loop blen l w n ws = \<lparr>written = n, cerr = None, src = l, dst = w, writes = ws\<rparr>"
  by (subst copy_loop.simps) (simp add: LimitedReader_Read_def)

lemma copy_loop_body:
  "0 < blen \<Longrightarrow>
   n \<le> written (copy_loop blen l w n ws) \<and>
   rw_body (dst (copy_loop blen l w n ws))
     = rw_body w @ take (written (copy_loop blen l w n ws) - n) (stream l)"
proof (induction l w n ws rule: copy_loop_cases)
  case (stop l w n ws er l')
  then show ?case by simp
next
  case (fail l w n ws data l' nw er w')
  from Read_all [OF fail(1)] Write_all [OF fail(3)]
  have "stream l = data @ stream l'" and "nw \<le> length data"
    and "rw_body w' = rw_body w @ take nw data"
    by auto
  then show ?case by simp
next
  case (skip l w n ws l' res)
  from Read_all [OF skip(1)] skip(2) show ?case by simp
next
  case (go l w n ws data l' w' res)
  from Read_all [OF go(1)] Write_all [OF go(3)] go(4)
  have "stream l = data @ stream l'" and "rw_body w' = rw_body w @ data"
    and "n + length data \<le> written res"
    and "rw_body (dst res) = rw_body w' @ take (written res - (n + length data)) (stream l')"
    by auto
  then show ?case by auto
qed

lemma copy_loop_success:
  "0 < blen \<Longrightarrow> cerr (copy_loop blen l w n ws) = None \<longrightarrow>
   rw_body (dst (copy_loop blen l w n ws)) @ stream (src (copy_loop blen l w n ws))
     = rw_body w @ stream l \<and>
   (lr_N (src (copy_loop blen l w n ws)) \<le> 0 \<or>
    pending (lr_R (src (copy_loop blen l w n ws))) = [] \<and> fin (lr_R l) = EOF)"
  by (induction l w n ws rule: copy_loop_cases)
     (auto dest!: Read_all Write_all split: if_splits)

lemma copy_loop_header:
  "0 < blen \<Longrightarrow>
   rw_header (dst (copy_loop blen l w n ws)) = rw_header w \<and>
   length ws \<le> length (writes (copy_loop blen l w n ws)) \<and>
   (if length (writes (copy_loop blen l w n ws)) = length ws
    then dst (copy_loop blen l w n ws) = w
    else rw_status (dst (copy_loop blen l w n ws))
           = Some (case rw_status w of None \<Rightarrow> StatusOK | Some c \<Rightarrow> c)
       \<and> rw_sent (dst (copy_loop blen l w n ws))
           = (case rw_status w of None \<Rightarrow> rw_header w | Some c \<Rightarrow> rw_sent w))"
  by (induction l w n ws rule: copy_loop_cases)
     (auto dest!: Write_all split: if_splits option.splits)

lemma copy_loop_written:
  "0 < blen \<Longrightarrow>
   written (copy_loop blen l w n ws) + length (concat ws)
     \<le> n + length (concat (writes (copy_loop blen l w n ws)))"
  by (induction l w n ws rule: copy_loop_cases) (auto dest!: Write_all)

lemma enc_digit_mem: "enc_digit v \<in> set encodeURL"
proof -
  have "unat (v AND 0x3F) \<le> unat (0x3F :: 64 word)"
    by (rule word_and_le1 [THEN word_le_nat_alt [THEN iffD1]])
  then have "unat (v AND 0x3F) < length encodeURL"
    by (simp add: encodeURL_def)
  then show ?thesis
    unfolding enc_digit_def by (rule nth_mem)
qed

lemma encode_groups_whole:
  "length xs mod 3 = 0 \<Longrightarrow>
     set (encode_groups xs) \<subseteq> set encodeURL \<and> length (encode_groups xs) = length xs div 3 * 4"
  by (induction xs rule: encode_groups.induct) (auto simp: enc_digit_mem Let_def)

lemma length_fill: "length (fill n xs) = n"
  by (simp add: fill_def)

lemma generate_fileID_buffer:
  assumes "generate_fileID e = Inr (fileID, buffer)"
  shows "buffer \<noteq> []"
proof -
  have "bufferSize \<le> length (Encode (bufPool_Get e) b)" for b
    by (simp add: Encode_def bufPool_Get_def length_fill)
  moreover have "0 < bufferSize" by (simp add: bufferSize_def)
  ultimately have "Encode (bufPool_Get e) b \<noteq> []" for b
    by (metis length_0_conv not_le)
  with assms show ?thesis
    by (auto simp: generate_fileID_def Let_def split: prod.splits option.splits)
qed

subsection \<open>Reading events\<close>

lemma responses_append: "responses (xs @ ys) = responses xs @ responses ys"
  by (induction xs rule: responses.induct) simp_all

lemma signals_append: "signals (xs @ ys) = signals xs @ signals ys"
  by (induction xs rule: signals.induct) simp_all

lemma handed_append: "handed (xs @ ys) = handed xs @ handed ys"
  by (induction xs rule: handed.induct) simp_all

lemma responses_SinkWrite: "responses (map (SinkWrite rref) ws) = []"
  by (induction ws) simp_all

lemma signals_SinkWrite: "signals (map (SinkWrite rref) ws) = []"
  by (induction ws) simp_all


lemma count_SinkWrite: "count_list (map (SinkWrite rref) ws) (Delete fileID) = 0"
  by (induction ws) simp_all

lemma dropWhile_SinkWrite:
  "dropWhile (\<lambda>x. x \<noteq> Delete fileID) (map (SinkWrite rref) ws @ evs)
     = dropWhile (\<lambda>x. x \<noteq> Delete fileID) evs"
  by (induction ws) simp_all

lemma takeWhile_SinkWrite:
  "takeWhile (\<lambda>x. x \<noteq> Delete fileID) (map (SinkWrite rref) ws @ evs)
     = map (SinkWrite rref) ws @ takeWhile (\<lambda>x. x \<noteq> Delete fileID) evs"
  by (induction ws) simp_all

lemma filter_SinkWrite: "filter (\<lambda>ev. \<exists>k er. ev = Copied k er) (map (SinkWrite rref) ws) = []"
  by (induction ws) simp_all

subsection \<open>The select, the plain error replies, and the copy as a whole\<close>

lemma select_wait_ready: "select_wait e \<in> set (ready_cases e)"
proof (cases "ready_cases e")
  case Nil
  then show ?thesis
    by (auto simp: ready_cases_def first_instant_def Let_def min_def
             split: if_splits option.splits)
next
  case (Cons c cs)
  then have "select_wait e = (c # cs) ! (pick e mod length (c # cs))"
    by (simp add: select_wait_def)
  moreover have "pick e mod length (c # cs) < length (c # cs)" by simp
  ultimately show ?thesis
    unfolding Cons by (metis nth_mem)
qed

lemma first_instant_least:
  "first_instant e \<le> wait_budget"
  "pair_at e = Some t \<Longrightarrow> first_instant e \<le> t"
  "done_at e = Some d \<Longrightarrow> first_instant e \<le> d"
  by (auto simp: first_instant_def Let_def split: option.splits)

lemma select_wait_first:
  "(select_wait e = ClientConnected \<longrightarrow>
      (\<exists>t. pair_at e = Some t \<and> t \<le> wait_budget \<and> (\<forall>d. done_at e = Some d \<longrightarrow> t \<le> d)))
   \<and> (select_wait e = ContextDone \<longrightarrow>
      (\<exists>d. done_at e = Some d \<and> d \<le> wait_budget \<and> (\<forall>t. pair_at e = Some t \<longrightarrow> d \<le> t)))
   \<and> (select_wait e = TimeAfter \<longrightarrow>
      (\<forall>t. pair_at e = Some t \<longrightarrow> wait_budget \<le> t)
      \<and> (\<forall>d. done_at e = Some d \<longrightarrow> wait_budget \<le> d))"
  using select_wait_ready [of e] first_instant_least [of e]
  by (auto simp: ready_cases_def split: if_splits)

lemma http_Error_fresh:
  assumes "rw_status w = None" and "rw_room w = None"
  shows "rw_status (http_Error msg code w) = Some code"
    and "rw_body (http_Error msg code w) = rw_body w @ msg @ [LF]"
  using assms
  by (simp_all add: http_Error_def rw_Write_def rw_WriteHeader_def Header_Set_def Header_Add_def
        Header_Del_def Let_def)

lemma bad_request_fresh:
  assumes "rw_status w = None" and "rw_room w = None"
  shows "rw_status (bad_request msg w) = Some StatusBadRequest"
    and "rw_body (bad_request msg w) = rw_body w @ msg"
  using assms
  by (simp_all add: bad_request_def rw_Write_def rw_WriteHeader_def Let_def)

lemma copy_result_facts:
  assumes "0 < blen" and res: "res = copy_loop blen (LimitReader rd cl) w 0 []"
  shows "concat (writes res) = take (length (concat (writes res))) (concat (pending rd))"
    and "length (concat (writes res)) \<le> nat cl"
    and "written res \<le> length (concat (writes res))"
    and "rw_body (dst res) = rw_body w @ take (written res) (concat (writes res))"
    and "cerr res = None \<Longrightarrow> concat (writes res) = take (nat cl) (concat (pending rd))"
    and "cerr res = None \<Longrightarrow> rw_body (dst res) = rw_body w @ take (nat cl) (concat (pending rd))"
    and "rw_header (dst res) = rw_header w"
    and "rw_status w = None \<Longrightarrow> concat (writes res) \<noteq> [] \<Longrightarrow> rw_sent (dst res) = rw_header w"
    and "cl \<le> 0 \<Longrightarrow> writes res = [] \<and> dst res = w \<and> cerr res = None \<and> written res = 0"
    and "concat (writes res) \<noteq> [] \<Longrightarrow> rw_status (dst res) \<noteq> None"
proof -
  let ?l = "LimitReader rd cl"
  let ?C = "concat (writes res)"
  let ?S = "stream (src res)"
  let ?B = "concat (pending rd)"
  have reads: "?C @ ?S = ?B"
    using copy_loop_reads [OF assms(1), where l = ?l and w = w and n = 0 and ws = "[]"] res
    by (simp add: stream_def LimitReader_def)
  then show prefix: "?C = take (length ?C) ?B"
    by (metis append_eq_conv_conj)
  have limit: "int (length ?C) + lr_N (src res) = cl" "0 \<le> cl \<Longrightarrow> 0 \<le> lr_N (src res)"
    using copy_loop_limit [OF assms(1), where l = ?l and w = w and n = 0 and ws = "[]"] res by (simp_all add: LimitReader_def)
  show idle: "cl \<le> 0 \<Longrightarrow> writes res = [] \<and> dst res = w \<and> cerr res = None \<and> written res = 0"
    using copy_loop_nothing [OF assms(1), where l = ?l and w = w and n = 0 and ws = "[]"] res by (simp add: LimitReader_def)
  show bound: "length ?C \<le> nat cl"
  proof (cases "0 \<le> cl")
    case True
    with limit show ?thesis by linarith
  next
    case False
    then have "cl \<le> 0" by simp
    then have "writes res = []" using idle by blast
    then show ?thesis by simp
  qed
  show wr: "written res \<le> length ?C"
    using copy_loop_written [OF assms(1), where l = ?l and w = w and n = 0 and ws = "[]"] res by simp
  have body: "rw_body (dst res) = rw_body w @ take (written res) ?B"
    using copy_loop_body [OF assms(1), where l = ?l and w = w and n = 0 and ws = "[]"] res
    by (simp add: stream_def LimitReader_def)
  have "take (written res) ?B = take (written res) ?C"
    using wr reads [symmetric] by simp
  with body show "rw_body (dst res) = rw_body w @ take (written res) ?C" by simp
  show whole: "concat (writes res) = take (nat cl) ?B" if ok: "cerr res = None"
  proof -
    from copy_loop_success [OF assms(1), where l = ?l and w = w and n = 0 and ws = "[]"] ok res
    have "lr_N (src res) \<le> 0 \<or> pending (lr_R (src res)) = []"
      by auto
    then show ?thesis
    proof
      assume "lr_N (src res) \<le> 0"
      then have "length ?C = nat cl"
        using limit idle by (cases "0 \<le> cl") auto
      with prefix show ?thesis by simp
    next
      assume "pending (lr_R (src res)) = []"
      then have "?C = ?B" using reads by (simp add: stream_def)
      with bound show ?thesis by simp
    qed
  qed
  show "rw_body (dst res) = rw_body w @ take (nat cl) ?B" if ok: "cerr res = None"
  proof -
    from copy_loop_success [OF assms(1), where l = ?l and w = w and n = 0 and ws = "[]"] ok res
    have "rw_body (dst res) @ ?S = rw_body w @ ?B"
      by (simp add: stream_def LimitReader_def)
    with reads have "rw_body (dst res) @ ?S = (rw_body w @ ?C) @ ?S" by simp
    then have "rw_body (dst res) = rw_body w @ ?C" by (simp only: append_same_eq)
    with whole [OF ok] show ?thesis by simp
  qed
  have hdr: "rw_header (dst res) = rw_header w \<and>
     (if length (writes res) = 0 then dst res = w
      else rw_status (dst res) = Some (case rw_status w of None \<Rightarrow> StatusOK | Some c \<Rightarrow> c)
         \<and> rw_sent (dst res) = (case rw_status w of None \<Rightarrow> rw_header w | Some c \<Rightarrow> rw_sent w))"
    using copy_loop_header [OF assms(1), where l = ?l and w = w and n = 0 and ws = "[]"] res by simp
  then show "rw_header (dst res) = rw_header w" by simp
  show "rw_sent (dst res) = rw_header w" if "rw_status w = None" "?C \<noteq> []"
  proof -
    from that(2) have "length (writes res) \<noteq> 0" by auto
    with hdr that(1) show ?thesis by simp
  qed
  show "rw_status (dst res) \<noteq> None" if "?C \<noteq> []"
  proof -
    from that have "length (writes res) \<noteq> 0" by auto
    with hdr show ?thesis by simp
  qed
qed

subsection \<open>What the downloads leave alone\<close>

lemma get_step_frame:
  assumes "get_step w nm (pc, s) = (pc', s')"
  shows "clients s' = clients s \<and> gets s' = gets s
     \<and> (\<forall>r. r \<noteq> w \<longrightarrow> writers s' r = writers s r)
     \<and> (quiet pc \<longrightarrow> writers s' = writers s \<and> quiet pc')"
  using assms
  by (cases pc) (auto simp: reply_def split: option.splits if_splits)

lemma download_step_clients: "clients (download_step d s) = clients s"
proof -
  obtain pc' s' where step: "get_step (fst d) (snd d) (gets s (fst d), s) = (pc', s')"
    by (metis prod.exhaust)
  from get_step_frame [OF step] step show ?thesis
    by (simp add: download_step_def)
qed

lemma download_step_quiet:
  assumes "quiet (gets s r)"
  shows "writers (download_step d s) r = writers s r \<and> quiet (gets (download_step d s) r)"
proof -
  obtain pc' s' where step: "get_step (fst d) (snd d) (gets s (fst d), s) = (pc', s')"
    by (metis prod.exhaust)
  from get_step_frame [OF step] step assms show ?thesis
    by (cases "fst d = r") (auto simp: download_step_def)
qed

lemma fold_download_quiet:
  "quiet (gets s r) \<Longrightarrow>
     writers (fold download_step ds s) r = writers s r
     \<and> quiet (gets (fold download_step ds s) r)"
proof (induction ds arbitrary: s)
  case Nil
  then show ?case by simp
next
  case (Cons d ds)
  from download_step_quiet [OF Cons.prems, of d]
  have step: "writers (download_step d s) r = writers s r"
    and q: "quiet (gets (download_step d s) r)"
    by simp_all
  from Cons.IH [OF q] step show ?case by simp
qed

lemma fold_download_clients: "clients (fold download_step ds s) = clients s"
  by (induction ds arbitrary: s) (simp_all add: download_step_clients)

lemma meanwhile_quiet:
  "quiet (gets s r) \<Longrightarrow>
     writers (meanwhile e k s) r = writers s r \<and> quiet (gets (meanwhile e k s) r)"
  unfolding meanwhile_def by (rule fold_download_quiet)

lemma meanwhile_clients: "clients (meanwhile e k s) = clients s"
  unfolding meanwhile_def by (rule fold_download_clients)

lemma get_sent_quiet: "quiet pc \<Longrightarrow> quiet (get_sent pc)"
  by (cases pc) simp_all

lemma receive_from_quiet:
  "writers (receive_from ch s) = writers s
   \<and> clients (receive_from ch s) = clients s
   \<and> heap (receive_from ch s) = heap s
   \<and> (quiet (gets s r) \<longrightarrow> quiet (gets (receive_from ch s) r))"
  by (auto simp: receive_from_def get_sent_quiet split: list.splits)

lemma rw_finish_keeps:
  "rw_body (rw_finish w) = rw_body w \<and> rw_header (rw_finish w) = rw_header w
   \<and> (rw_status w \<noteq> None \<longrightarrow> rw_finish w = w)"
  by (auto simp: rw_finish_def rw_WriteHeader_def split: option.splits)

lemma send_on_keeps:
  assumes "send_on ch s = Some s'"
  shows "clients s' = clients s \<and> heap s' = heap s
     \<and> rw_body (writers s' r) = rw_body (writers s r)
     \<and> rw_header (writers s' r) = rw_header (writers s r)
     \<and> (rw_status (writers s r) \<noteq> None \<longrightarrow> writers s' r = writers s r)
     \<and> (quiet (gets s r) \<longrightarrow> quiet (gets s' r))"
  using assms rw_finish_keeps
  by (auto simp: send_on_def get_completed_def reply_def split: list.splits)

text \<open>
  A writer whose download is past its test keeps its body and its header through
  whatever the deferred calls and the other downloads do, and all of itself once its
  status line is out.
\<close>

lemma completion_send_keeps:
  assumes "quiet (gets s r)"
    and "completion_send e p s = Inl s' \<or> completion_send e p s = Inr (ch, s')"
  shows "rw_body (writers s' r) = rw_body (writers s r)
     \<and> rw_header (writers s' r) = rw_header (writers s r)
     \<and> (rw_status (writers s r) \<noteq> None \<longrightarrow> writers s' r = writers s r)
     \<and> quiet (gets s' r)"
proof -
  let ?s1 = "meanwhile e before_signal s"
  let ?s2 = "meanwhile e during_signal ?s1"
  from meanwhile_quiet [OF assms(1)]
  have s1: "writers ?s1 r = writers s r" and q1: "quiet (gets ?s1 r)"
    by simp_all
  from meanwhile_quiet [OF q1]
  have s2: "writers ?s2 r = writers s r" and q2: "quiet (gets ?s2 r)"
    by (simp_all add: s1)
  from assms(2) consider "s' = ?s1" | "s' = ?s2" | c where "send_on c ?s2 = Some s'"
    by (auto simp: completion_send_def Let_def split: option.splits)
  then show ?thesis
  proof cases
    case 1
    with s1 q1 show ?thesis by simp
  next
    case 2
    with s2 q2 show ?thesis by simp
  next
    case 3
    from send_on_keeps [OF 3, of r] s2 q2 show ?thesis by simp
  qed
qed

lemma delete_entry_keeps:
  assumes "quiet (gets s r)"
  shows "writers (delete_entry e fileID s) r = writers s r
     \<and> quiet (gets (delete_entry e fileID s) r)"
  using meanwhile_quiet [OF assms] by (simp add: delete_entry_def Let_def)

lemma run_defers_keeps:
  "quiet (gets s r) \<Longrightarrow>
     rw_body (writers (snd (snd (run_defers e ds evs s))) r) = rw_body (writers s r)
     \<and> rw_header (writers (snd (snd (run_defers e ds evs s))) r) = rw_header (writers s r)
     \<and> (rw_status (writers s r) \<noteq> None \<longrightarrow>
          writers (snd (snd (run_defers e ds evs s))) r = writers s r)"
proof (induction e ds evs s rule: run_defers.induct)
  case (1 e evs s)
  then show ?case by simp
next
  case (2 e ds evs s)
  then show ?case by simp
next
  case (3 e fileID ds evs s)
  from delete_entry_keeps [OF "3.prems", of e fileID] "3.IH"
  show ?case by simp
next
  case (4 e ds evs s)
  then show ?case by simp
next
  case (5 e p ds evs s)
  show ?case
  proof (cases "completion_send e p s")
    case (Inl s')
    with completion_send_keeps [OF "5.prems", of e p s'] show ?thesis by simp
  next
    case (Inr res)
    obtain ch s' where res: "res = (ch, s')" by (cases res)
    from completion_send_keeps [OF "5.prems", of e p s' ch] Inr res
    have keeps: "rw_body (writers s' r) = rw_body (writers s r)"
      "rw_header (writers s' r) = rw_header (writers s r)"
      "rw_status (writers s r) \<noteq> None \<longrightarrow> writers s' r = writers s r"
      and q: "quiet (gets s' r)"
      by simp_all
    from "5.IH" [OF Inr res [symmetric] q] keeps Inr res
    show ?thesis by auto
  qed
qed

lemma run_defers_log:
  "\<exists>tail. fst (snd (run_defers e ds evs s)) = evs @ tail
      \<and> handed tail = [] \<and> responses tail = []"
proof (induction e ds evs s rule: run_defers.induct)
  case (1 e evs s)
  then show ?case by simp
next
  case (2 e ds evs s)
  then obtain tail where "fst (snd (run_defers e ds (evs @ [PoolPut]) s)) = (evs @ [PoolPut]) @ tail"
    and "handed tail = []" and "responses tail = []"
    by blast
  then show ?case
    by (intro exI [of _ "PoolPut # tail"]) simp
next
  case (3 e fileID ds evs s)
  then obtain tail where "fst (snd (run_defers e ds (evs @ [Delete fileID]) (delete_entry e fileID s)))
      = (evs @ [Delete fileID]) @ tail"
    and "handed tail = []" and "responses tail = []"
    by blast
  then show ?case
    by (intro exI [of _ "Delete fileID # tail"]) simp
next
  case (4 e ds evs s)
  then obtain tail where "fst (snd (run_defers e ds (evs @ [ConnClose]) s)) = (evs @ [ConnClose]) @ tail"
    and "handed tail = []" and "responses tail = []"
    by blast
  then show ?case
    by (intro exI [of _ "ConnClose # tail"]) simp
next
  case (5 e p ds evs s)
  show ?case
  proof (cases "completion_send e p s")
    case (Inl s')
    then show ?thesis by simp
  next
    case (Inr res)
    obtain ch s' where res: "res = (ch, s')" by (cases res)
    from "5.IH" [OF Inr res [symmetric]] obtain tail
      where "fst (snd (run_defers e ds (evs @ [SendCompleted ch]) s')) = (evs @ [SendCompleted ch]) @ tail"
        and "handed tail = []" and "responses tail = []"
      by blast
    with Inr res show ?thesis
      by (intro exI [of _ "SendCompleted ch # tail"]) simp
  qed
qed

lemma leave_parts:
  "fst (snd (leave e out ds evs w s)) = fst (snd (run_defers e ds evs s))
   \<and> fst (snd (snd (leave e out ds evs w s))) = snd (snd (run_defers e ds evs s))
   \<and> snd (snd (snd (leave e out ds evs w s))) = w"
  by (cases "run_defers e ds evs s") (auto simp: leave_def split: bool.splits)

subsection \<open>The wrapper's writes\<close>

lemma say_ok:
  assumes "0 \<le> size_w (f_w fr)"
  shows "say msg fr = Inr (fr\<lparr>f_w := spoken msg (f_w fr),
                              f_evs := f_evs fr @ [RespWrite msg, RespFlush]\<rparr>)"
  using assms
  by (simp add: say_def spoken_def Write_def WriteHeaderNow_def Written_def noWritten_def Let_def)

lemma spoken_size: "0 \<le> size_w w \<Longrightarrow> 0 \<le> size_w (spoken msg w)"
  by (simp add: spoken_def)

text \<open>On a connection that takes whatever it is given, every phase reaches the wire.\<close>

lemma spoken_sound:
  assumes "bw_err (body w) = None" and "bw_room (body w) = None"
  shows "bw_err (body (spoken msg w)) = None \<and> bw_room (body (spoken msg w)) = None
     \<and> bw_wire (body (spoken msg w)) = bw_wire (body w) @ bw_buf (body w) @ msg
     \<and> bw_buf (body (spoken msg w)) = []
     \<and> Size (spoken msg w) = Size w + int (length msg)"
  using assms
  by (simp add: spoken_def bw_Write_def bw_Flush_def Size_def)

lemma two_phases_on_wire:
  assumes "bw_err b = None" and "bw_room b = None"
  shows "bw_wire (body (spoken m2 (spoken m1 (new_responseLogWriter b))))
           = bw_wire b @ bw_buf b @ m1 @ m2
     \<and> bw_buf (body (spoken m2 (spoken m1 (new_responseLogWriter b)))) = []
     \<and> Size (spoken m2 (spoken m1 (new_responseLogWriter b))) = int (length (m1 @ m2))"
proof -
  let ?w0 = "new_responseLogWriter b"
  have w0: "bw_err (body ?w0) = None" "bw_room (body ?w0) = None" "body ?w0 = b" "Size ?w0 = 0"
    using assms by (simp_all add: new_responseLogWriter_def Size_def)
  note p1 = spoken_sound [OF w0(1,2), of m1]
  from p1 have s1: "bw_err (body (spoken m1 ?w0)) = None" "bw_room (body (spoken m1 ?w0)) = None"
    by simp_all
  note p2 = spoken_sound [OF s1, of m2]
  from p1 p2 w0(3,4) show ?thesis by simp
qed

lemma three_phases_on_wire:
  assumes "bw_err b = None" and "bw_room b = None"
  shows "bw_wire (body (spoken m3 (spoken m2 (spoken m1 (new_responseLogWriter b)))))
           = bw_wire b @ bw_buf b @ m1 @ m2 @ m3
     \<and> bw_buf (body (spoken m3 (spoken m2 (spoken m1 (new_responseLogWriter b))))) = []
     \<and> Size (spoken m3 (spoken m2 (spoken m1 (new_responseLogWriter b))))
           = int (length (m1 @ m2 @ m3))"
proof -
  let ?w0 = "new_responseLogWriter b"
  have w0: "bw_err (body ?w0) = None" "bw_room (body ?w0) = None" "body ?w0 = b" "Size ?w0 = 0"
    using assms by (simp_all add: new_responseLogWriter_def Size_def)
  note p1 = spoken_sound [OF w0(1,2), of m1]
  from p1 have s1: "bw_err (body (spoken m1 ?w0)) = None" "bw_room (body (spoken m1 ?w0)) = None"
    by simp_all
  note p2 = spoken_sound [OF s1, of m2]
  from p2 have s2: "bw_err (body (spoken m2 (spoken m1 ?w0))) = None"
    "bw_room (body (spoken m2 (spoken m1 ?w0))) = None"
    by simp_all
  note p3 = spoken_sound [OF s2, of m3]
  from p1 p2 p3 w0(3,4) show ?thesis by simp
qed

subsection \<open>The upload up to the wait, and after it\<close>

lemma post_start_waits:
  assumes "authorized cfg r" and "generate_fileID e = Inr (fileID, buffer)"
    and "clients s fileID = None" and "hijacker e" and "hijack_err e = None"
  shows "post_start cfg e wref name r s =
      (Waiting \<lparr>f_fileName = name, f_fileID = fileID, f_newClient = Suc (fresh s),
                f_receiverCh = fresh s,
                f_w = spoken (link_message cfg name fileID) (new_responseLogWriter (conn_writer e)),
                f_bufrw = conn_reader e, f_buffer = buffer,
                f_ContentLength = ContentLength r,
                f_defers = [DeferClose, DeferDelete fileID, DeferPut],
                f_evs = [PoolGet, Register fileID (Suc (fresh s)), Hijacked,
                         RespWrite (link_message cfg name fileID), RespFlush]\<rparr>,
       register_client name fileID s)"
proof -
  let ?fr = "\<lparr>f_fileName = name, f_fileID = fileID, f_newClient = Suc (fresh s),
              f_receiverCh = fresh s,
              f_w = new_responseLogWriter (conn_writer e),
              f_bufrw = conn_reader e, f_buffer = buffer, f_ContentLength = ContentLength r,
              f_defers = [DeferClose, DeferDelete fileID, DeferPut],
              f_evs = [PoolGet, Register fileID (Suc (fresh s)), Hijacked]\<rparr>"
  have "0 \<le> size_w (f_w ?fr)"
    by (simp add: new_responseLogWriter_def)
  from say_ok [OF this, of "link_message cfg name fileID"] assms
  show ?thesis
    by (simp add: post_start_def hijack_and_greet_def Let_def)
qed

lemma report_ok:
  assumes "0 \<le> size_w (f_w fr)"
  shows "report e msg fr s =
     leave e Returned (f_defers fr) (f_evs fr @ [RespWrite msg, RespFlush])
       (Some (spoken msg (f_w fr))) s"
  using say_ok [OF assms, of msg] by (simp add: report_def finish_def)

lemma upload_paired:
  assumes auth: "authorized cfg r" and gen: "generate_fileID e = Inr (fileID, buffer)"
    and free: "clients s fileID = None" and hij: "hijacker e" "hijack_err e = None"
    and sel: "select_wait (heard e (at_select e name fileID s) (fresh s)) = ClientConnected"
    and r1: "receiver (heap (at_header e name fileID s) (Suc (fresh s))) = Some rref1"
    and r2: "receiver (heap (at_copy e name fileID s rref1) (Suc (fresh s))) = Some rref2"
    and res: "res = copy_loop (length buffer) (LimitReader (conn_reader e) (ContentLength r))
                (writers (at_copy e name fileID s rref1) rref2) 0 []"
  shows "post_handler cfg e wref name r s =
     leave e Returned [DeferSend (Suc (fresh s)), DeferClose, DeferDelete fileID, DeferPut]
       ([PoolGet, Register fileID (Suc (fresh s)), Hijacked,
         RespWrite (link_message cfg name fileID), RespFlush,
         RespWrite (''Client connected.'' @ [LF]), RespFlush,
         HeaderAdd rref1 ''content-disposition'' (disposition name)]
          @ map (SinkWrite rref2) (writes res)
          @ [Copied (written res) (cerr res),
             RespWrite (final_message name (cerr res)), RespFlush])
       (Some (spoken (final_message name (cerr res))
                (spoken (''Client connected.'' @ [LF])
                   (spoken (link_message cfg name fileID)
                      (new_responseLogWriter (conn_writer e))))))
       (reply rref2 (\<lambda>_. dst res) (at_copy e name fileID s rref1))"
proof -
  let ?w1 = "spoken (link_message cfg name fileID) (new_responseLogWriter (conn_writer e))"
  let ?w2 = "spoken (''Client connected.'' @ [LF]) ?w1"
  let ?evs1 = "[PoolGet, Register fileID (Suc (fresh s)), Hijacked,
                RespWrite (link_message cfg name fileID), RespFlush]"
  let ?evs2 = "?evs1 @ [RespWrite (''Client connected.'' @ [LF]), RespFlush]"
  let ?evs3 = "?evs2 @ [HeaderAdd rref1 ''content-disposition'' (disposition name)]"
  let ?fr = "\<lparr>f_fileName = name, f_fileID = fileID, f_newClient = Suc (fresh s),
              f_receiverCh = fresh s, f_w = ?w1,
              f_bufrw = conn_reader e, f_buffer = buffer, f_ContentLength = ContentLength r,
              f_defers = [DeferClose, DeferDelete fileID, DeferPut], f_evs = ?evs1\<rparr>"
  let ?fr3 = "?fr\<lparr>f_w := ?w2,
                 f_defers := [DeferSend (Suc (fresh s)), DeferClose, DeferDelete fileID, DeferPut],
                 f_evs := ?evs3\<rparr>"
  let ?fr4 = "?fr3\<lparr>f_bufrw := lr_R (src res),
                   f_evs := ?evs3 @ map (SinkWrite rref2) (writes res)
                              @ [Copied (written res) (cerr res)]\<rparr>"
  have w1: "0 \<le> size_w ?w1"
    by (simp add: spoken_size new_responseLogWriter_def)
  then have w2: "0 \<le> size_w ?w2"
    by (rule spoken_size)
  have start: "post_start cfg e wref name r s = (Waiting ?fr, register_client name fileID s)"
    by (rule post_start_waits [OF auth gen free hij])
  have say2: "say (''Client connected.'' @ [LF]) ?fr = Inr (?fr\<lparr>f_w := ?w2, f_evs := ?evs2\<rparr>)"
    using say_ok [of ?fr "''Client connected.'' @ [LF]"] w1 by simp
  have copy: "CopyBuffer (writers (at_copy e name fileID s rref1) rref2)
                (LimitReader (conn_reader e) (ContentLength r)) buffer = Inr res"
    using generate_fileID_buffer [OF gen] res by (simp add: CopyBuffer_def)
  have rep: "report e (final_message name (cerr res)) ?fr4
               (reply rref2 (\<lambda>_. dst res) (at_copy e name fileID s rref1))
     = leave e Returned [DeferSend (Suc (fresh s)), DeferClose, DeferDelete fileID, DeferPut]
         (?evs3 @ map (SinkWrite rref2) (writes res)
            @ [Copied (written res) (cerr res),
               RespWrite (final_message name (cerr res)), RespFlush])
         (Some (spoken (final_message name (cerr res)) ?w2))
         (reply rref2 (\<lambda>_. dst res) (at_copy e name fileID s rref1))"
    using report_ok [of ?fr4 e "final_message name (cerr res)"] w2 by simp
  have cp: "copy_to_receiver e ?fr3
              (reply rref1 (Header_Add ''content-disposition'' (disposition name))
                 (at_header e name fileID s))
     = report e (final_message name (cerr res)) ?fr4
         (reply rref2 (\<lambda>_. dst res) (at_copy e name fileID s rref1))"
    using r2 copy
    by (simp add: copy_to_receiver_def at_copy_def Let_def final_message_def
          split: option.splits)
  have tr: "transfer e (?fr\<lparr>f_w := ?w2, f_evs := ?evs2\<rparr>)
              (receive_from (fresh s) (at_select e name fileID s))
     = copy_to_receiver e ?fr3
         (reply rref1 (Header_Add ''content-disposition'' (disposition name))
            (at_header e name fileID s))"
    using r1 by (simp add: transfer_def at_header_def Let_def)
  have "post_handler cfg e wref name r s
      = transfer e (?fr\<lparr>f_w := ?w2, f_evs := ?evs2\<rparr>)
          (receive_from (fresh s) (at_select e name fileID s))"
    using start say2 sel by (simp add: post_handler_def post_resume_def at_select_def Let_def)
  then show ?thesis
    by (simp only: tr cp rep) simp
qed

lemma upload_unpaired:
  assumes auth: "authorized cfg r" and gen: "generate_fileID e = Inr (fileID, buffer)"
    and free: "clients s fileID = None" and hij: "hijacker e" "hijack_err e = None"
    and sel: "select_wait (heard e (at_select e name fileID s) (fresh s)) = c"
    and c: "c \<noteq> ClientConnected"
  shows "post_handler cfg e wref name r s =
     (Returned,
      [PoolGet, Register fileID (Suc (fresh s)), Hijacked,
       RespWrite (link_message cfg name fileID), RespFlush,
       RespWrite (phase2_message c), RespFlush,
       ConnClose, Delete fileID, PoolPut],
      delete_entry e fileID (at_select e name fileID s),
      Some (spoken (phase2_message c)
              (spoken (link_message cfg name fileID) (new_responseLogWriter (conn_writer e)))))"
proof -
  let ?w1 = "spoken (link_message cfg name fileID) (new_responseLogWriter (conn_writer e))"
  let ?fr = "\<lparr>f_fileName = name, f_fileID = fileID, f_newClient = Suc (fresh s),
              f_receiverCh = fresh s, f_w = ?w1,
              f_bufrw = conn_reader e, f_buffer = buffer, f_ContentLength = ContentLength r,
              f_defers = [DeferClose, DeferDelete fileID, DeferPut],
              f_evs = [PoolGet, Register fileID (Suc (fresh s)), Hijacked,
                       RespWrite (link_message cfg name fileID), RespFlush]\<rparr>"
  have w1: "0 \<le> size_w (f_w ?fr)"
    by (simp add: spoken_size new_responseLogWriter_def)
  have start: "post_start cfg e wref name r s = (Waiting ?fr, register_client name fileID s)"
    by (rule post_start_waits [OF auth gen free hij])
  have "post_handler cfg e wref name r s
      = report e (phase2_message c) ?fr (at_select e name fileID s)"
    using start sel c
    by (cases c) (simp_all add: post_handler_def post_resume_def at_select_def Let_def
                    phase2_message_def)
  then show ?thesis
    by (simp add: report_ok [OF w1] leave_def)
qed

text \<open>
  The deferred calls of a paired upload, spelled out: the flow leaves only if the
  completion send found its receiver.
\<close>

lemma leave_paired:
  "leave e out [DeferSend p, DeferClose, DeferDelete fileID, DeferPut] evs w s =
     (case completion_send e p s of
        Inl s' \<Rightarrow> (Blocked, evs, s', w)
      | Inr (ch, s') \<Rightarrow>
          (out, evs @ [SendCompleted ch, ConnClose, Delete fileID, PoolPut],
           delete_entry e fileID s', w))"
  by (simp add: leave_def split: sum.splits prod.splits)


subsection \<open>A paired upload whose completion send finds its receiver\<close>


lemma get_completed_returns:
  "gets (get_completed w s) w = GetReturned
   \<and> rw_status (writers (get_completed w s) w) \<noteq> None
   \<and> rw_body (writers (get_completed w s) w) = rw_body (writers s w)
   \<and> clients (get_completed w s) = clients s"
  by (simp add: get_completed_def reply_def rw_finish_def rw_WriteHeader_def
        split: option.splits)

subsection \<open>The sample uploads, evaluated\<close>

lemmas points = during_wait_def before_header_def before_copy_def before_signal_def
  during_signal_def before_delete_def

lemma sample_route:
  "handler sample_config sample_env 0 sample_request sample_state = Uploaded sample_upload"
  by (simp add: handler_def route_def LastIndex_def prefix_def sample_request_def
        sample_upload_def)

lemma sample_authorized: "authorized sample_config sample_request"
  by (simp add: authorized_def sample_config_def sample_request_def)

lemma sample_fileID: "generate_fileID sample_env = Inr (sample_ID, sample_buffer)"
  by (simp add: generate_fileID_def sample_env_def fill_def EncodedLen_def Encode_def
        bufPool_Get_def bufferSize_def enc_digit_def encodeURL_def sample_ID_def
        sample_buffer_def)

lemma sample_free: "clients sample_state sample_ID = None"
  by (simp add: sample_state_def)

lemma sample_hijack: "hijacker sample_env" "hijack_err sample_env = None"
  by (simp_all add: sample_env_def)

lemma sample_sound:
  "bw_err (conn_writer sample_env) = None" "bw_room (conn_writer sample_env) = None"
  "bw_wire (conn_writer sample_env) = []" "bw_buf (conn_writer sample_env) = []"
  by (simp_all add: sample_env_def)

lemma sample_select:
  "select_wait (heard sample_env (at_select sample_env ''hello.txt'' sample_ID sample_state)
                  (fresh sample_state)) = ClientConnected"
  by (simp add: select_wait_def ready_cases_def first_instant_def wait_budget_def heard_def
        context_done_at_def at_select_def meanwhile_def sample_env_def sample_others_def points
        download_step_def register_client_def sample_state_def sample_client_def)

lemma sample_claimed:
  "receiver (heap (at_header sample_env ''hello.txt'' sample_ID sample_state)
               (Suc (fresh sample_state))) = Some 1"
  "receiver (heap (at_copy sample_env ''hello.txt'' sample_ID sample_state 1)
               (Suc (fresh sample_state))) = Some 1"
  "quiet (gets (at_select sample_env ''hello.txt'' sample_ID sample_state) 1)"
  "writers (at_select sample_env ''hello.txt'' sample_ID sample_state) 1 = sample_writer"
  "writers (at_copy sample_env ''hello.txt'' sample_ID sample_state 1) 1
     = Header_Add ''content-disposition'' (disposition ''hello.txt'') sample_writer"
  "fresh sample_state = 0"
  by (simp_all add: at_copy_def at_header_def at_select_def meanwhile_def sample_env_def
        sample_others_def points download_step_def register_client_def sample_state_def
        sample_client_def receive_from_def reply_def)

lemma sample_copy:
  "copy_loop (length sample_buffer) (LimitReader (conn_reader sample_env) 5)
     (Header_Add ''content-disposition'' (disposition ''hello.txt'') sample_writer) 0 []
   = \<lparr>written = 5, cerr = None,
       src = \<lparr>lr_R = \<lparr>pending = ['' world''], fin = EOF\<rparr>, lr_N = 0\<rparr>,
       dst = \<lparr>rw_header = [(''content-disposition'', disposition ''hello.txt'')],
               rw_status = Some 200,
               rw_sent = [(''content-disposition'', disposition ''hello.txt'')],
               rw_body = ''hello'', rw_room = None\<rparr>,
       writes = [''hel'', ''lo'']\<rparr>"
  by (simp add: copy_loop.simps sample_buffer_def sample_ID_def sample_env_def LimitReader_def
        LimitedReader_Read_def reader_Read_def rw_Write_def rw_WriteHeader_def Header_Add_def
        sample_writer_def StatusOK_def Let_def)




lemma sample_upload_run:
  "sample_upload = (fst sample_upload, fst (snd sample_upload), fst (snd (snd sample_upload)),
                    snd (snd (snd sample_upload)))"
  "chunked_upload = (fst chunked_upload, fst (snd chunked_upload),
                     fst (snd (snd chunked_upload)), snd (snd (snd chunked_upload)))"
  "taken_upload = (fst taken_upload, fst (snd taken_upload), fst (snd (snd taken_upload)),
                   snd (snd (snd taken_upload)))"
  by simp_all


lemma chunked_facts:
  "authorized sample_config chunked_request"
  "ContentLength chunked_request < 0"
  by (simp_all add: chunked_request_def authorized_def sample_config_def sample_request_def)

lemma sample_encoding:
  "encode_groups (fill 36 ''abcdefghijklmnopqrstuvwxyz0123456789'') = sample_ID"
  by (simp add: fill_def enc_digit_def encodeURL_def sample_ID_def)

lemma taken_facts:
  "clients taken_state sample_ID = Some 1"
  "rw_status (writers taken_state 0) = None"
  "rw_room (writers taken_state 0) = None"
  "rw_body (writers taken_state 0) = []"
  by (simp_all add: taken_state_def register_client_def sample_state_def sample_writer_def)

lemma claimed_facts:
  "clients claimed_state sample_ID = Some 1"
  "receiving (heap claimed_state 1)"
  "rw_status (writers claimed_state 2) = None"
  "rw_room (writers claimed_state 2) = None"
  "rw_body (writers claimed_state 2) = []"
  "clients sample_state ''nope'' = None"
  "rw_status (writers sample_state 0) = None"
  "rw_room (writers sample_state 0) = None"
  by (simp_all add: claimed_state_def get_start_def register_client_def sample_state_def
        sample_writer_def sample_client_def)

subsection \<open>The upload with two claimers, evaluated\<close>

lemma others_racing: "others racing_env = racing_others"
  by (simp add: racing_env_def)

lemmas racing_states = at_copy_def at_header_def at_select_def meanwhile_def others_racing
  racing_others_def points download_step_def register_client_def sample_state_def
  sample_client_def receive_from_def reply_def

lemma racing_facts:
  "generate_fileID racing_env = Inr (sample_ID, sample_buffer)"
  "hijacker racing_env" "hijack_err racing_env = None"
  "select_wait (heard racing_env (at_select racing_env ''hello.txt'' sample_ID sample_state)
                  (fresh sample_state)) = ClientConnected"
  "receiver (heap (at_header racing_env ''hello.txt'' sample_ID sample_state)
               (Suc (fresh sample_state))) = Some 2"
  "receiver (heap (at_copy racing_env ''hello.txt'' sample_ID sample_state 2)
               (Suc (fresh sample_state))) = Some 2"
  "writers (at_copy racing_env ''hello.txt'' sample_ID sample_state 2) 2
     = Header_Add ''content-disposition'' (disposition ''hello.txt'') sample_writer"
  "conn_reader racing_env = conn_reader sample_env"
  "conn_writer racing_env = conn_writer sample_env"
proof -
  have "generate_fileID racing_env = generate_fileID sample_env"
    by (simp add: racing_env_def generate_fileID_def bufPool_Get_def Let_def
          split: prod.splits option.splits)
  then show "generate_fileID racing_env = Inr (sample_ID, sample_buffer)"
    by (simp add: sample_fileID)
  show "hijacker racing_env" "hijack_err racing_env = None"
    "conn_reader racing_env = conn_reader sample_env"
    "conn_writer racing_env = conn_writer sample_env"
    by (simp_all add: racing_env_def sample_env_def)
  show "select_wait (heard racing_env (at_select racing_env ''hello.txt'' sample_ID sample_state)
                  (fresh sample_state)) = ClientConnected"
    by (simp add: select_wait_def ready_cases_def first_instant_def wait_budget_def heard_def
          context_done_at_def racing_states)
       (simp add: racing_env_def sample_env_def wait_budget_def)
  show "receiver (heap (at_header racing_env ''hello.txt'' sample_ID sample_state)
               (Suc (fresh sample_state))) = Some 2"
    "receiver (heap (at_copy racing_env ''hello.txt'' sample_ID sample_state 2)
               (Suc (fresh sample_state))) = Some 2"
    "writers (at_copy racing_env ''hello.txt'' sample_ID sample_state 2) 2
       = Header_Add ''content-disposition'' (disposition ''hello.txt'') sample_writer"
    by (simp_all add: racing_states)
qed

lemma racing_signal:
  assumes "downloadCompleted (heap S (Suc 0)) = Some 3" and "recvq S 3 = []"
  shows "completion_send racing_env (Suc 0) S = Inl S"
proof -
  have idle: "meanwhile racing_env before_signal s = s"
    "meanwhile racing_env during_signal s = s" for s
    by (simp_all add: meanwhile_def others_racing racing_others_def points)
  from assms show ?thesis
    by (simp add: completion_send_def send_on_def idle)
qed

lemma racing_upload_run:
  "racing_upload = (fst racing_upload, fst (snd racing_upload), fst (snd (snd racing_upload)),
                    snd (snd (snd racing_upload)))"
  by simp

lemma racing_run:
  "fst racing_upload = Blocked"
  "fst (snd racing_upload) =
      [PoolGet, Register sample_ID 1, Hijacked,
       RespWrite (link_message sample_config ''hello.txt'' sample_ID), RespFlush,
       RespWrite (''Client connected.'' @ [LF]), RespFlush,
       HeaderAdd 2 ''content-disposition'' (disposition ''hello.txt''),
       SinkWrite 2 ''hel'', SinkWrite 2 ''lo'', Copied 5 None,
       RespWrite (success_message ''hello.txt''), RespFlush]"
  "clients (fst (snd (snd racing_upload))) sample_ID = Some 1"
  "downloadCompleted (heap (fst (snd (snd racing_upload))) (Suc 0)) = Some 3"
  "recvq (fst (snd (snd racing_upload))) 3 = []"
  "recvq (fst (snd (snd racing_upload))) 2 = [1]"
  "gets (fst (snd (snd racing_upload))) (Suc 0) = Receiving 2"
  "gets (fst (snd (snd racing_upload))) 2 = Sending 1"
  "rw_body (writers (fst (snd (snd racing_upload))) (Suc 0)) = []"
  "rw_body (writers (fst (snd (snd racing_upload))) 2) = ''hello''"
  "snd (snd (snd racing_upload)) =
      Some (spoken (success_message ''hello.txt'')
              (spoken (''Client connected.'' @ [LF])
                 (spoken (link_message sample_config ''hello.txt'' sample_ID)
                    (new_responseLogWriter (conn_writer sample_env)))))"
proof -
  have cl: "ContentLength sample_request = 5"
    by (simp add: sample_request_def)
  note step = upload_paired [OF sample_authorized racing_facts(1) sample_free
      racing_facts(2,3,4,5,6) refl, where wref = 0,
      unfolded racing_facts(7,8,9) sample_claimed(6) cl sample_copy]
  show "fst racing_upload = Blocked"
    unfolding racing_upload_def step
    by (simp add: leave_paired racing_signal racing_states)
  show "fst (snd racing_upload) =
      [PoolGet, Register sample_ID 1, Hijacked,
       RespWrite (link_message sample_config ''hello.txt'' sample_ID), RespFlush,
       RespWrite (''Client connected.'' @ [LF]), RespFlush,
       HeaderAdd 2 ''content-disposition'' (disposition ''hello.txt''),
       SinkWrite 2 ''hel'', SinkWrite 2 ''lo'', Copied 5 None,
       RespWrite (success_message ''hello.txt''), RespFlush]"
    unfolding racing_upload_def step
    by (simp add: leave_paired racing_signal racing_states final_message_def)
  show "clients (fst (snd (snd racing_upload))) sample_ID = Some 1"
    "downloadCompleted (heap (fst (snd (snd racing_upload))) (Suc 0)) = Some 3"
    "recvq (fst (snd (snd racing_upload))) 3 = []"
    "recvq (fst (snd (snd racing_upload))) 2 = [1]"
    "gets (fst (snd (snd racing_upload))) (Suc 0) = Receiving 2"
    "gets (fst (snd (snd racing_upload))) 2 = Sending 1"
    "rw_body (writers (fst (snd (snd racing_upload))) (Suc 0)) = []"
    "rw_body (writers (fst (snd (snd racing_upload))) 2) = ''hello''"
    unfolding racing_upload_def step
    by (simp_all add: leave_paired racing_signal racing_states sample_writer_def)
  show "snd (snd (snd racing_upload)) =
      Some (spoken (success_message ''hello.txt'')
              (spoken (''Client connected.'' @ [LF])
                 (spoken (link_message sample_config ''hello.txt'' sample_ID)
                    (new_responseLogWriter (conn_writer sample_env)))))"
    unfolding racing_upload_def step
    by (simp add: leave_paired racing_signal racing_states final_message_def)
qed

lemma sample_wire:
  "bw_wire (body (spoken m3 (spoken m2 (spoken m1
      (new_responseLogWriter (conn_writer sample_env)))))) = m1 @ m2 @ m3"
  "bw_wire (body (spoken m2 (spoken m1
      (new_responseLogWriter (conn_writer sample_env))))) = m1 @ m2"
  using three_phases_on_wire [OF sample_sound(1,2), of m3 m2 m1]
    two_phases_on_wire [OF sample_sound(1,2), of m2 m1]
  by (simp_all add: sample_sound)

subsection \<open>The uploads whose peer leaves, evaluated\<close>

text \<open>Whenever the peer leaves, the select hears the same.\<close>

lemma select_deaf_to_peer:
  "select_wait (heard (e\<lparr>peer_gone_at := g\<rparr>) s ch) = select_wait (heard e s ch)"
  by (simp add: heard_def context_done_at_def select_wait_def ready_cases_def
        first_instant_def)

lemma paired_responses:
  assumes auth: "authorized cfg r" and gen: "generate_fileID e = Inr (fileID, buffer)"
    and free: "clients s fileID = None" and hij: "hijacker e" "hijack_err e = None"
    and sel: "select_wait (heard e (at_select e name fileID s) (fresh s)) = ClientConnected"
    and r1: "receiver (heap (at_header e name fileID s) (Suc (fresh s))) = Some rref1"
    and r2: "receiver (heap (at_copy e name fileID s rref1) (Suc (fresh s))) = Some rref2"
    and res: "res = copy_loop (length buffer) (LimitReader (conn_reader e) (ContentLength r))
                (writers (at_copy e name fileID s rref1) rref2) 0 []"
  shows "responses (fst (snd (post_handler cfg e wref name r s)))
           = [link_message cfg name fileID, ''Client connected.'' @ [LF],
              final_message name (cerr res)]
     \<and> snd (snd (snd (post_handler cfg e wref name r s)))
           = Some (spoken (final_message name (cerr res))
                     (spoken (''Client connected.'' @ [LF])
                        (spoken (link_message cfg name fileID)
                           (new_responseLogWriter (conn_writer e)))))"
proof -
  let ?ds = "[DeferSend (Suc (fresh s)), DeferClose, DeferDelete fileID, DeferPut]"
  let ?evs = "[PoolGet, Register fileID (Suc (fresh s)), Hijacked,
         RespWrite (link_message cfg name fileID), RespFlush,
         RespWrite (''Client connected.'' @ [LF]), RespFlush,
         HeaderAdd rref1 ''content-disposition'' (disposition name)]
          @ map (SinkWrite rref2) (writes res)
          @ [Copied (written res) (cerr res),
             RespWrite (final_message name (cerr res)), RespFlush]"
  let ?sX = "reply rref2 (\<lambda>_. dst res) (at_copy e name fileID s rref1)"
  note step = upload_paired [OF auth gen free hij sel r1 r2 res, of wref]
  from run_defers_log [of e ?ds ?evs ?sX] obtain tail
    where "fst (snd (run_defers e ?ds ?evs ?sX)) = ?evs @ tail" and "responses tail = []"
    by blast
  then show ?thesis
    by (simp add: step leave_parts responses_append responses_SinkWrite)
qed

lemma gone_facts:
  "generate_fileID gone_env = Inr (sample_ID, sample_buffer)"
  "hijacker gone_env" "hijack_err gone_env = None"
  "select_wait (heard gone_env (at_select gone_env ''hello.txt'' sample_ID sample_state)
                  (fresh sample_state)) = ClientConnected"
  "receiver (heap (at_header gone_env ''hello.txt'' sample_ID sample_state)
               (Suc (fresh sample_state))) = Some 1"
  "receiver (heap (at_copy gone_env ''hello.txt'' sample_ID sample_state 1)
               (Suc (fresh sample_state))) = Some 1"
  "writers (at_copy gone_env ''hello.txt'' sample_ID sample_state 1) 1
     = Header_Add ''content-disposition'' (disposition ''hello.txt'') sample_writer"
  "conn_reader gone_env = conn_reader sample_env"
  "conn_writer gone_env = conn_writer sample_env"
  "peer_gone_at gone_env = Some 2000000000"
  "pair_at gone_env = Some 4000000000"
  "done_at gone_env = None"
proof -
  have others: "others gone_env = sample_others"
    by (simp add: gone_env_def sample_env_def)
  have "generate_fileID gone_env = generate_fileID sample_env"
    by (simp add: gone_env_def generate_fileID_def bufPool_Get_def Let_def
          split: prod.splits option.splits)
  then show "generate_fileID gone_env = Inr (sample_ID, sample_buffer)"
    by (simp add: sample_fileID)
  show "hijacker gone_env" "hijack_err gone_env = None"
    "conn_reader gone_env = conn_reader sample_env"
    "conn_writer gone_env = conn_writer sample_env"
    "peer_gone_at gone_env = Some 2000000000"
    "pair_at gone_env = Some 4000000000"
    "done_at gone_env = None"
    by (simp_all add: gone_env_def sample_env_def)
  show "select_wait (heard gone_env (at_select gone_env ''hello.txt'' sample_ID sample_state)
                  (fresh sample_state)) = ClientConnected"
    by (simp add: select_wait_def ready_cases_def first_instant_def wait_budget_def heard_def
          context_done_at_def at_select_def meanwhile_def others sample_others_def points
          download_step_def register_client_def sample_state_def sample_client_def)
       (simp add: gone_env_def sample_env_def wait_budget_def)
  show "receiver (heap (at_header gone_env ''hello.txt'' sample_ID sample_state)
               (Suc (fresh sample_state))) = Some 1"
    "receiver (heap (at_copy gone_env ''hello.txt'' sample_ID sample_state 1)
               (Suc (fresh sample_state))) = Some 1"
    "writers (at_copy gone_env ''hello.txt'' sample_ID sample_state 1) 1
       = Header_Add ''content-disposition'' (disposition ''hello.txt'') sample_writer"
    by (simp_all add: at_copy_def at_header_def at_select_def meanwhile_def others
          sample_others_def points download_step_def register_client_def sample_state_def
          sample_client_def receive_from_def reply_def)
qed

lemma gone_run:
  "responses (fst (snd gone_upload))
     = [link_message sample_config ''hello.txt'' sample_ID, ''Client connected.'' @ [LF],
        success_message ''hello.txt'']"
  "snd (snd (snd gone_upload)) =
      Some (spoken (success_message ''hello.txt'')
              (spoken (''Client connected.'' @ [LF])
                 (spoken (link_message sample_config ''hello.txt'' sample_ID)
                    (new_responseLogWriter (conn_writer sample_env)))))"
proof -
  have cl: "ContentLength sample_request = 5"
    by (simp add: sample_request_def)
  note step = paired_responses [OF sample_authorized gone_facts(1) sample_free
      gone_facts(2,3,4,5,6) refl, where wref = 0,
      unfolded gone_facts(7,8,9) cl sample_copy, folded gone_upload_def]
  from step show "responses (fst (snd gone_upload))
     = [link_message sample_config ''hello.txt'' sample_ID, ''Client connected.'' @ [LF],
        success_message ''hello.txt'']"
    by (simp add: final_message_def)
  from step show "snd (snd (snd gone_upload)) =
      Some (spoken (success_message ''hello.txt'')
              (spoken (''Client connected.'' @ [LF])
                 (spoken (link_message sample_config ''hello.txt'' sample_ID)
                    (new_responseLogWriter (conn_writer sample_env)))))"
    by (simp add: final_message_def)
qed

lemma forsaken_facts:
  "generate_fileID forsaken_env = Inr (sample_ID, sample_buffer)"
  "hijacker forsaken_env" "hijack_err forsaken_env = None"
  "select_wait (heard forsaken_env
      (at_select forsaken_env ''hello.txt'' sample_ID sample_state) (fresh sample_state))
     = TimeAfter"
  "conn_writer forsaken_env = conn_writer sample_env"
  "peer_gone_at forsaken_env = Some 2000000000"
  "pair_at forsaken_env = None"
  "done_at forsaken_env = None"
proof -
  have "generate_fileID forsaken_env = generate_fileID sample_env"
    by (simp add: forsaken_env_def lonely_env_def generate_fileID_def bufPool_Get_def Let_def
          split: prod.splits option.splits)
  then show "generate_fileID forsaken_env = Inr (sample_ID, sample_buffer)"
    by (simp add: sample_fileID)
  show "hijacker forsaken_env" "hijack_err forsaken_env = None"
    "conn_writer forsaken_env = conn_writer sample_env"
    "peer_gone_at forsaken_env = Some 2000000000"
    "pair_at forsaken_env = None"
    "done_at forsaken_env = None"
    by (simp_all add: forsaken_env_def lonely_env_def sample_env_def)
  show "select_wait (heard forsaken_env
      (at_select forsaken_env ''hello.txt'' sample_ID sample_state) (fresh sample_state))
     = TimeAfter"
    by (simp add: select_wait_def ready_cases_def first_instant_def wait_budget_def heard_def
          context_done_at_def forsaken_env_def lonely_env_def sample_env_def)
qed

lemma forsaken_run:
  "forsaken_upload =
     (Returned,
      [PoolGet, Register sample_ID (Suc (fresh sample_state)), Hijacked,
       RespWrite (link_message sample_config ''hello.txt'' sample_ID), RespFlush,
       RespWrite (phase2_message TimeAfter), RespFlush,
       ConnClose, Delete sample_ID, PoolPut],
      delete_entry forsaken_env sample_ID
        (at_select forsaken_env ''hello.txt'' sample_ID sample_state),
      Some (spoken (phase2_message TimeAfter)
              (spoken (link_message sample_config ''hello.txt'' sample_ID)
                 (new_responseLogWriter (conn_writer sample_env)))))"
  unfolding forsaken_upload_def
  using upload_unpaired [OF sample_authorized forsaken_facts(1) sample_free
      forsaken_facts(2,3,4), where wref = 0]
  by (simp add: forsaken_facts(5))

section \<open>The claims\<close>



text \<open>
  C2 (the code departs from it). Two downloads of the same name whose steps alternate
  both find \<^verbatim>\<open>receiving\<close> false, because the test is made before the write lock is
  taken; both then store their writer and both go on to send the pairing signal.
  Neither is rejected, and the second has overwritten the first one's writer and
  completion channel. Run one after the other, the second is rejected.
\<close>

theorem interleaved_downloads_both_claim:
  "fst (run_gets sample_ID [0, 1, 0, 1, 0, 1]
          ([AtLookup, AtLookup], register_client ''hello.txt'' sample_ID sample_state))
     = [AtSend 1, AtSend 1]
   \<and> receiver (heap (snd (run_gets sample_ID [0, 1, 0, 1, 0, 1]
          ([AtLookup, AtLookup], register_client ''hello.txt'' sample_ID sample_state))) 1)
     = Some 1
   \<and> downloadCompleted (heap (snd (run_gets sample_ID [0, 1, 0, 1, 0, 1]
          ([AtLookup, AtLookup], register_client ''hello.txt'' sample_ID sample_state))) 1)
     = Some 3
   \<and> rw_status (writers (snd (run_gets sample_ID [0, 1, 0, 1, 0, 1]
          ([AtLookup, AtLookup], register_client ''hello.txt'' sample_ID sample_state))) 0)
     = None
   \<and> rw_status (writers (snd (run_gets sample_ID [0, 1, 0, 1, 0, 1]
          ([AtLookup, AtLookup], register_client ''hello.txt'' sample_ID sample_state))) 1)
     = None"
  by (simp add: register_client_def sample_state_def sample_client_def sample_writer_def)

lemma successive_downloads_one_claims:
  "fst (run_gets sample_ID [0, 0, 0, 1, 1, 1]
          ([AtLookup, AtLookup], register_client ''hello.txt'' sample_ID sample_state))
     = [AtSend 1, GetReturned]
   \<and> rw_status (writers (snd (run_gets sample_ID [0, 0, 0, 1, 1, 1]
          ([AtLookup, AtLookup], register_client ''hello.txt'' sample_ID sample_state))) 1)
     = Some StatusBadRequest"
  by (simp add: register_client_def sample_state_def sample_client_def sample_writer_def
        reply_def http_Error_def rw_Write_def rw_WriteHeader_def Header_Set_def Header_Add_def
        Header_Del_def Let_def)

text \<open>
  C3 (the code departs from it). The deferred completion send of main.go:172 reads
  \<^verbatim>\<open>newClient.downloadCompleted\<close> when it runs and, the channel being unbuffered,
  returns only once a download receives from that channel. When a second download has
  claimed the transfer in the meantime (the defect of C2), the field holds the second
  one's channel, from which nobody receives. The upload below has copied the body and
  written its success message; it then stays in the send, so the deferred
  \<^verbatim>\<open>delete\<close> never runs and the entry remains in the registry. With a single
  claimer the same upload returns and removes its entry once, after the signal
  (\<open>sample_run\<close>).
\<close>

theorem second_claimer_blocks_removal:
  "fst racing_upload = Blocked
   \<and> responses (fst (snd racing_upload))
        = [link_message sample_config ''hello.txt'' sample_ID, ''Client connected.'' @ [LF],
           ''hello.txt was transferred successfully.'' @ [LF]]
   \<and> count_list (fst (snd racing_upload)) (Register sample_ID 1) = 1
   \<and> count_list (fst (snd racing_upload)) (Delete sample_ID) = 0
   \<and> clients (fst (snd (snd racing_upload))) sample_ID = Some 1
   \<and> downloadCompleted (heap (fst (snd (snd racing_upload))) 1) = Some 3
   \<and> recvq (fst (snd (snd racing_upload))) 3 = []
   \<and> recvq (fst (snd (snd racing_upload))) 2 = [1]"
  by (simp add: racing_run success_message_def)

text \<open>
  C4 (the code departs from it). In the same run the copy returns no error and the
  success message reaches the upload's connection, but the completion signal is
  never delivered: the upload's send waits on the second claimer's channel, the first
  download stays blocked receiving from the channel it made itself, and the second
  stays blocked in its send, the file's bytes in its response. The defect is the one
  of C2. With a single claimer the signal is delivered once and the download returns
  (\<open>sample_run\<close>).
\<close>

theorem second_claimer_starves_completion:
  "Copied 5 None \<in> set (fst (snd racing_upload))
   \<and> (\<exists>wf. snd (snd (snd racing_upload)) = Some wf
         \<and> bw_wire (body wf)
             = link_message sample_config ''hello.txt'' sample_ID @ ''Client connected.'' @ [LF]
               @ ''hello.txt was transferred successfully.'' @ [LF])
   \<and> signals (fst (snd racing_upload)) = []
   \<and> fst racing_upload = Blocked
   \<and> gets (fst (snd (snd racing_upload))) 1 = Receiving 2
   \<and> gets (fst (snd (snd racing_upload))) 2 = Sending 1
   \<and> rw_body (writers (fst (snd (snd racing_upload))) 1) = []
   \<and> rw_body (writers (fst (snd (snd racing_upload))) 2) = ''hello''"
  by (simp add: racing_run sample_wire success_message_def)

text \<open>
  C5 (the code departs from it). The second case of the \<^verbatim>\<open>select\<close> listens to
  the request's context, and after the \<^verbatim>\<open>Hijack\<close> the context no longer follows
  the connection: a peer that leaves is not heard. Here the uploader's peer leaves two
  seconds into the wait. In the first run a download pairs at four seconds, and the
  upload answers \<^verbatim>\<open>Client connected.\<close> and goes on to copy; in the second no
  download comes, and the upload waits the whole 120 seconds and writes the timeout
  message. \<^verbatim>\<open>Request disconnected.\<close> is written in neither.
\<close>

theorem departed_peer_is_not_heard:
  "peer_gone_at gone_env = Some 2000000000 \<and> pair_at gone_env = Some 4000000000
   \<and> select_wait (heard gone_env (at_select gone_env ''hello.txt'' sample_ID sample_state)
                     (fresh sample_state)) = ClientConnected
   \<and> responses (fst (snd gone_upload))
        = [link_message sample_config ''hello.txt'' sample_ID, ''Client connected.'' @ [LF],
           ''hello.txt was transferred successfully.'' @ [LF]]
   \<and> (\<exists>wf. snd (snd (snd gone_upload)) = Some wf
         \<and> bw_wire (body wf)
             = link_message sample_config ''hello.txt'' sample_ID @ ''Client connected.'' @ [LF]
               @ ''hello.txt was transferred successfully.'' @ [LF])
   \<and> peer_gone_at forsaken_env = Some 2000000000 \<and> pair_at forsaken_env = None
   \<and> select_wait (heard forsaken_env
          (at_select forsaken_env ''hello.txt'' sample_ID sample_state) (fresh sample_state))
        = TimeAfter
   \<and> wait_budget = 120 * 1000000000
   \<and> responses (fst (snd forsaken_upload))
        = [link_message sample_config ''hello.txt'' sample_ID,
           ''Timed out. No client connected in 120 seconds.'' @ [LF]]
   \<and> (\<exists>wf. snd (snd (snd forsaken_upload)) = Some wf
         \<and> bw_wire (body wf)
             = link_message sample_config ''hello.txt'' sample_ID
               @ ''Timed out. No client connected in 120 seconds.'' @ [LF])"
  by (simp add: gone_facts gone_run forsaken_facts forsaken_run sample_wire success_message_def
        phase2_message_def wait_budget_def)

text \<open>
  C6. The file ID is the base64 encoding, over the URL-safe alphabet, of the 36 bytes
  read from a generator seeded with the clock: 48 characters of that alphabet, none of
  them \<open>+\<close>, \<open>/\<close> or \<open>=\<close>. When the read reports an error, the upload answers 400
  with the error's text and leaves the registry and the client structs as they were.
\<close>

theorem file_id_is_url_safe:
  assumes auth: "authorized cfg r"
  shows "(rand_read e (now e) 36 = (raw, 36, None) \<longrightarrow>
           (\<exists>buffer. generate_fileID e = Inr (encode_groups (fill 36 raw), buffer))
         \<and> length (encode_groups (fill 36 raw)) = 48
         \<and> set (encode_groups (fill 36 raw)) \<subseteq> set encodeURL
         \<and> CHR ''+'' \<notin> set (encode_groups (fill 36 raw))
         \<and> CHR ''/'' \<notin> set (encode_groups (fill 36 raw))
         \<and> CHR ''='' \<notin> set (encode_groups (fill 36 raw)))
     \<and> (rand_read e (now e) 36 = (raw, n, Some err) \<longrightarrow>
           post_handler cfg e wref name r s
             = (Returned, [], reply wref (bad_request (error_text err)) s, None)
         \<and> clients (reply wref (bad_request (error_text err)) s) = clients s
         \<and> heap (reply wref (bad_request (error_text err)) s) = heap s
         \<and> (rw_status (writers s wref) = None \<and> rw_room (writers s wref) = None \<longrightarrow>
              rw_status (writers (reply wref (bad_request (error_text err)) s) wref)
                = Some StatusBadRequest
            \<and> rw_body (writers (reply wref (bad_request (error_text err)) s) wref)
                = rw_body (writers s wref) @ error_text err))"
proof -
  have len: "length (encode_groups (fill 36 raw)) = 48"
    and sub: "set (encode_groups (fill 36 raw)) \<subseteq> set encodeURL"
    using encode_groups_whole [of "fill 36 raw"] by (simp_all add: length_fill)
  have gen: "\<exists>buffer. generate_fileID e = Inr (encode_groups (fill 36 raw), buffer)"
    if "rand_read e (now e) 36 = (raw, 36, None)"
    using that len by (simp add: generate_fileID_def Encode_def EncodedLen_def Let_def)
  have safe: "CHR ''+'' \<notin> set encodeURL" "CHR ''/'' \<notin> set encodeURL"
    "CHR ''='' \<notin> set encodeURL"
    by (simp_all add: encodeURL_def)
  have fail: "post_handler cfg e wref name r s
             = (Returned, [], reply wref (bad_request (error_text err)) s, None)"
    if "rand_read e (now e) 36 = (raw, n, Some err)"
    using auth that by (simp add: post_handler_def post_start_def generate_fileID_def)
  show ?thesis
    using gen len sub safe fail bad_request_fresh [of "writers s wref" "error_text err"]
    by (auto simp: reply_def)
qed

theorem file_id_is_url_safe_witness:
  "authorized sample_config sample_request
   \<and> rand_read sample_env (now sample_env) 36
        = (''abcdefghijklmnopqrstuvwxyz0123456789'', 36, None)
   \<and> generate_fileID sample_env = Inr (sample_ID, sample_buffer)
   \<and> length sample_ID = 48
   \<and> set sample_ID \<subseteq> set encodeURL
   \<and> CHR ''+'' \<notin> set sample_ID \<and> CHR ''/'' \<notin> set sample_ID \<and> CHR ''='' \<notin> set sample_ID
   \<and> rand_read dry_env (now dry_env) 36 = ([], 0, Some (Err ''no entropy''))
   \<and> post_handler sample_config dry_env 0 ''hello.txt'' sample_request sample_state
        = (Returned, [], reply 0 (bad_request ''no entropy'') sample_state, None)
   \<and> clients (reply 0 (bad_request ''no entropy'') sample_state) = clients sample_state
   \<and> rw_status (writers (reply 0 (bad_request ''no entropy'') sample_state) 0)
        = Some StatusBadRequest
   \<and> rw_body (writers (reply 0 (bad_request ''no entropy'') sample_state) 0) = ''no entropy''"
proof -
  have ok: "rand_read sample_env (now sample_env) 36
        = (''abcdefghijklmnopqrstuvwxyz0123456789'', 36, None)"
    by (simp add: sample_env_def)
  have dry: "rand_read dry_env (now dry_env) 36 = ([], 0, Some (Err ''no entropy''))"
    by (simp add: dry_env_def)
  have new: "rw_status (writers sample_state 0) = None" "rw_room (writers sample_state 0) = None"
    "rw_body (writers sample_state 0) = []"
    by (simp_all add: sample_state_def sample_writer_def)
  from file_id_is_url_safe [OF sample_authorized, of sample_env
      "''abcdefghijklmnopqrstuvwxyz0123456789''"] ok
  have first: "length sample_ID = 48 \<and> set sample_ID \<subseteq> set encodeURL
     \<and> CHR ''+'' \<notin> set sample_ID \<and> CHR ''/'' \<notin> set sample_ID \<and> CHR ''='' \<notin> set sample_ID"
    by (simp add: sample_encoding)
  from file_id_is_url_safe [OF sample_authorized, of dry_env "[]" 0 "Err ''no entropy''"
      0 "''hello.txt''" sample_state] dry new
  have second: "post_handler sample_config dry_env 0 ''hello.txt'' sample_request sample_state
        = (Returned, [], reply 0 (bad_request ''no entropy'') sample_state, None)
     \<and> clients (reply 0 (bad_request ''no entropy'') sample_state) = clients sample_state
     \<and> rw_status (writers (reply 0 (bad_request ''no entropy'') sample_state) 0)
          = Some StatusBadRequest
     \<and> rw_body (writers (reply 0 (bad_request ''no entropy'') sample_state) 0) = ''no entropy''"
    by simp
  from first second ok dry sample_authorized sample_fileID show ?thesis
    by simp
qed

text \<open>
  C7. A download of a name that is not in the registry is answered 404; a download of
  a transfer that is already being received is answered 400 with the message
  \<^verbatim>\<open>File already being received by another client.\<close> (to which \<^verbatim>\<open>http.Error\<close>
  appends a newline), and neither changes the registry or any client struct.
\<close>

theorem download_rejections:
  assumes new: "rw_status (writers s wref) = None" "rw_room (writers s wref) = None"
  shows "(clients s name = None \<longrightarrow>
            get_start wref name s = (GetReturned, reply wref http_NotFound s)
          \<and> rw_status (writers (reply wref http_NotFound s) wref) = Some StatusNotFound)
     \<and> (clients s name = Some p \<and> receiving (heap s p) \<longrightarrow>
            get_start wref name s
              = (GetReturned,
                 reply wref (http_Error (''File already being received by another client.'' @ [LF])
                               StatusBadRequest) s)
          \<and> rw_status (writers (snd (get_start wref name s)) wref) = Some StatusBadRequest
          \<and> rw_body (writers (snd (get_start wref name s)) wref)
              = rw_body (writers s wref)
                @ ''File already being received by another client.'' @ [LF] @ [LF])
     \<and> clients (reply wref f s) = clients s
     \<and> heap (reply wref f s) = heap s
     \<and> fresh (reply wref f s) = fresh s"
  using http_Error_fresh [OF new]
  by (auto simp: get_start_def reply_def http_NotFound_def already_message_def)

theorem download_rejections_witness:
  "rw_status (writers sample_state 0) = None \<and> rw_room (writers sample_state 0) = None
   \<and> clients sample_state ''nope'' = None
   \<and> get_start 0 ''nope'' sample_state = (GetReturned, reply 0 http_NotFound sample_state)
   \<and> rw_status (writers (reply 0 http_NotFound sample_state) 0) = Some StatusNotFound
   \<and> rw_status (writers claimed_state 2) = None \<and> rw_room (writers claimed_state 2) = None
   \<and> clients claimed_state sample_ID = Some 1 \<and> receiving (heap claimed_state 1)
   \<and> get_start 2 sample_ID claimed_state
        = (GetReturned,
           reply 2 (http_Error (''File already being received by another client.'' @ [LF])
                      StatusBadRequest) claimed_state)
   \<and> rw_status (writers (snd (get_start 2 sample_ID claimed_state)) 2) = Some StatusBadRequest
   \<and> rw_body (writers (snd (get_start 2 sample_ID claimed_state)) 2)
        = rw_body (writers claimed_state 2)
          @ ''File already being received by another client.'' @ [LF] @ [LF]
   \<and> heap (reply 2 (http_Error (''File already being received by another client.'' @ [LF])
                       StatusBadRequest) claimed_state) = heap claimed_state
   \<and> clients (reply 2 (http_Error (''File already being received by another client.'' @ [LF])
                       StatusBadRequest) claimed_state) = clients claimed_state"
proof -
  note missing = download_rejections [OF claimed_facts(7,8), where name = "''nope''"]
  note busy = download_rejections [OF claimed_facts(3,4), where name = sample_ID and p = 1
      and f = "http_Error (''File already being received by another client.'' @ [LF])
                 StatusBadRequest"]
  from missing busy claimed_facts(1,2,3,4,6,7,8) show ?thesis
    by blast
qed

text \<open>
  C8. When the generated file ID is already a key of the registry, the upload answers
  400 with \<^verbatim>\<open>File already exists. Choose a different name.\<close>, registers nothing
  and removes nothing: the registry and the client structs are as before.
\<close>

theorem collision_is_rejected:
  assumes auth: "authorized cfg r" and gen: "generate_fileID e = Inr (fileID, buffer)"
    and taken: "clients s fileID = Some p"
    and run: "post_handler cfg e wref name r s = (out, evs, s', w)"
  shows "out = Returned
     \<and> evs = [PoolGet, PoolPut]
     \<and> s' = reply wref (bad_request ''File already exists. Choose a different name.'') s
     \<and> clients s' = clients s
     \<and> heap s' = heap s
     \<and> fresh s' = fresh s
     \<and> (rw_status (writers s wref) = None \<and> rw_room (writers s wref) = None \<longrightarrow>
          rw_status (writers s' wref) = Some StatusBadRequest
        \<and> rw_body (writers s' wref)
            = rw_body (writers s wref) @ ''File already exists. Choose a different name.'')"
proof -
  have "post_handler cfg e wref name r s
      = (Returned, [PoolGet, PoolPut], reply wref (bad_request exists_message) s, None)"
    using auth gen taken
    by (simp add: post_handler_def post_start_def finished_def leave_def)
  with run show ?thesis
    using bad_request_fresh [of "writers s wref" exists_message]
    by (auto simp: reply_def exists_message_def)
qed

theorem collision_is_rejected_witness:
  "authorized sample_config sample_request
   \<and> generate_fileID sample_env = Inr (sample_ID, sample_buffer)
   \<and> clients taken_state sample_ID = Some 1
   \<and> fst taken_upload = Returned
   \<and> fst (snd taken_upload) = [PoolGet, PoolPut]
   \<and> clients (fst (snd (snd taken_upload))) = clients taken_state
   \<and> heap (fst (snd (snd taken_upload))) = heap taken_state
   \<and> rw_status (writers (fst (snd (snd taken_upload))) 0) = Some StatusBadRequest
   \<and> rw_body (writers (fst (snd (snd taken_upload))) 0)
        = rw_body (writers taken_state 0) @ ''File already exists. Choose a different name.''"
proof -
  note collision_is_rejected [OF sample_authorized sample_fileID taken_facts(1)
      sample_upload_run(3) [unfolded taken_upload_def], folded taken_upload_def]
  with sample_authorized sample_fileID taken_facts(1,2,3) show ?thesis
    by blast
qed

text \<open>
  C9 (the code departs from it). The wrapper is built with \<^verbatim>\<open>size\<close> at Go's zero
  value, not at \<^verbatim>\<open>noWritten\<close>, so \<^verbatim>\<open>Written()\<close> is already true before any
  \<^verbatim>\<open>Write\<close>.
\<close>

theorem fresh_wrapper_reports_written:
  "Written (new_responseLogWriter bw) \<and> Size (new_responseLogWriter bw) = 0"
  by (simp add: Written_def Size_def new_responseLogWriter_def noWritten_def)

text \<open>The count itself is kept as the spec says: each write adds what \<open>body\<close> accepted.\<close>

lemma Size_accumulates:
  assumes "Written w" and "Write data w = Inr ((n, err), w')"
  shows "Size w' = Size w + int n \<and> Written w = (size_w w \<noteq> - 1)"
  using assms
  by (auto simp: Write_def WriteHeaderNow_def Size_def Written_def noWritten_def Let_def)

text \<open>
  C10. When the request's declared length is negative (unknown), a paired upload hands
  no byte to the writer it copies to, the copy returns zero bytes and no error, the
  writer's body is what it was, and the upload reports success: the third message it
  writes is the success message, and on a connection that takes what it is given
  the three messages are what the connection receives, nothing of them left in the
  buffer.
\<close>

theorem unknown_length_copies_nothing:
  assumes auth: "authorized cfg r" and gen: "generate_fileID e = Inr (fileID, buffer)"
    and free: "clients s fileID = None" and hij: "hijacker e" "hijack_err e = None"
    and sel: "select_wait (heard e (at_select e name fileID s) (fresh s)) = ClientConnected"
    and rcv: "receiver (heap (at_header e name fileID s) (Suc (fresh s))) = Some rref1"
    and again: "receiver (heap (at_copy e name fileID s rref1) (Suc (fresh s))) = Some rref2"
    and past: "quiet (gets (at_select e name fileID s) rref2)"
    and neg: "ContentLength r < 0"
    and sound: "bw_err (conn_writer e) = None" "bw_room (conn_writer e) = None"
    and run: "post_handler cfg e wref name r s = (out, evs, s', w)"
  shows "handed evs = []
     \<and> Copied 0 None \<in> set evs
     \<and> rw_body (writers s' rref2) = rw_body (writers (at_select e name fileID s) rref2)
     \<and> responses evs =
         [link_message cfg name fileID, ''Client connected.'' @ [LF],
          name @ '' was transferred successfully.'' @ [LF]]
     \<and> (\<exists>wf. w = Some wf
           \<and> bw_wire (body wf)
               = bw_wire (conn_writer e) @ bw_buf (conn_writer e)
                 @ link_message cfg name fileID @ ''Client connected.'' @ [LF]
                 @ name @ '' was transferred successfully.'' @ [LF]
           \<and> bw_buf (body wf) = []
           \<and> Size wf
               = int (length (link_message cfg name fileID @ ''Client connected.'' @ [LF]
                              @ name @ '' was transferred successfully.'' @ [LF])))"
proof -
  let ?A = "writers (at_select e name fileID s) rref2"
  let ?C = "writers (at_copy e name fileID s rref1) rref2"
  define res where
    "res = copy_loop (length buffer) (LimitReader (conn_reader e) (ContentLength r)) ?C 0 []"
  let ?ds = "[DeferSend (Suc (fresh s)), DeferClose, DeferDelete fileID, DeferPut]"
  let ?evs = "[PoolGet, Register fileID (Suc (fresh s)), Hijacked,
         RespWrite (link_message cfg name fileID), RespFlush,
         RespWrite (''Client connected.'' @ [LF]), RespFlush,
         HeaderAdd rref1 ''content-disposition'' (disposition name)]
          @ map (SinkWrite rref2) (writes res)
          @ [Copied (written res) (cerr res),
             RespWrite (final_message name (cerr res)), RespFlush]"
  let ?sX = "reply rref2 (\<lambda>_. dst res) (at_copy e name fileID s rref1)"
  let ?wf = "spoken (final_message name (cerr res))
               (spoken (''Client connected.'' @ [LF])
                  (spoken (link_message cfg name fileID)
                     (new_responseLogWriter (conn_writer e))))"
  have blen: "0 < length buffer"
    using generate_fileID_buffer [OF gen] by simp
  from neg have "ContentLength r \<le> 0" by simp
  from copy_result_facts(9) [OF blen res_def this]
  have res: "writes res = []" "cerr res = None" "written res = 0" "dst res = ?C"
    by simp_all
  have taken: "writers (receive_from (fresh s) (at_select e name fileID s)) rref2 = ?A"
    "quiet (gets (receive_from (fresh s) (at_select e name fileID s)) rref2)"
    using receive_from_quiet [of "fresh s" "at_select e name fileID s" rref2] past by simp_all
  have hdr: "writers (at_header e name fileID s) rref2 = ?A"
    "quiet (gets (at_header e name fileID s) rref2)"
    using meanwhile_quiet [OF taken(2), of e before_header] taken(1)
    by (simp_all add: at_header_def)
  let ?s1 = "reply rref1 (Header_Add ''content-disposition'' (disposition name))
               (at_header e name fileID s)"
  have added: "rw_body (writers ?s1 rref2) = rw_body ?A" "quiet (gets ?s1 rref2)"
    using hdr by (auto simp: reply_def Header_Add_def)
  have cp: "rw_body ?C = rw_body ?A" "quiet (gets (at_copy e name fileID s rref1) rref2)"
    using meanwhile_quiet [OF added(2), of e before_copy] added(1)
    by (simp_all add: at_copy_def)
  from upload_paired [OF auth gen free hij sel rcv again res_def, of wref] run
  have left: "leave e Returned ?ds ?evs (Some ?wf) ?sX = (out, evs, s', w)"
    by simp
  have evs_run: "evs = fst (snd (run_defers e ?ds ?evs ?sX))"
    and s'_run: "s' = snd (snd (run_defers e ?ds ?evs ?sX))"
    and w: "w = Some ?wf"
    using leave_parts [of e Returned ?ds ?evs "Some ?wf" ?sX] unfolding left by simp_all
  from run_defers_log [of e ?ds ?evs ?sX] evs_run obtain tail
    where evs: "evs = ?evs @ tail" and tail: "handed tail = []" "responses tail = []"
    by auto
  have qX: "quiet (gets ?sX rref2)" and wX: "writers ?sX rref2 = dst res"
    using cp(2) by (simp_all add: reply_def)
  from run_defers_keeps [OF qX, of e ?ds ?evs] s'_run wX
  have body: "rw_body (writers s' rref2) = rw_body (dst res)"
    by simp
  have c1: "handed evs = []"
    by (simp add: evs handed_append tail res)
  have c2: "Copied 0 None \<in> set evs"
    by (simp add: evs res)
  have c3: "rw_body (writers s' rref2) = rw_body ?A"
    using body res(4) cp(1) by simp
  have c4: "responses evs =
         [link_message cfg name fileID, ''Client connected.'' @ [LF],
          name @ '' was transferred successfully.'' @ [LF]]"
    by (simp add: evs responses_append tail res final_message_def success_message_def)
  have c5: "bw_wire (body ?wf)
               = bw_wire (conn_writer e) @ bw_buf (conn_writer e)
                 @ link_message cfg name fileID @ ''Client connected.'' @ [LF]
                 @ name @ '' was transferred successfully.'' @ [LF]
           \<and> bw_buf (body ?wf) = []
           \<and> Size ?wf
               = int (length (link_message cfg name fileID @ ''Client connected.'' @ [LF]
                              @ name @ '' was transferred successfully.'' @ [LF]))"
    using three_phases_on_wire [OF sound, of "final_message name (cerr res)"
        "''Client connected.'' @ [LF]" "link_message cfg name fileID"]
    by (simp add: res final_message_def success_message_def)
  from c1 c2 c3 c4 c5 w show ?thesis by blast
qed

theorem unknown_length_copies_nothing_witness:
  "authorized sample_config chunked_request
   \<and> generate_fileID sample_env = Inr (sample_ID, sample_buffer)
   \<and> clients sample_state sample_ID = None
   \<and> hijacker sample_env \<and> hijack_err sample_env = None
   \<and> select_wait (heard sample_env (at_select sample_env ''hello.txt'' sample_ID sample_state)
                     (fresh sample_state)) = ClientConnected
   \<and> receiver (heap (at_header sample_env ''hello.txt'' sample_ID sample_state)
                  (Suc (fresh sample_state))) = Some 1
   \<and> receiver (heap (at_copy sample_env ''hello.txt'' sample_ID sample_state 1)
                  (Suc (fresh sample_state))) = Some 1
   \<and> quiet (gets (at_select sample_env ''hello.txt'' sample_ID sample_state) 1)
   \<and> ContentLength chunked_request < 0
   \<and> bw_err (conn_writer sample_env) = None \<and> bw_room (conn_writer sample_env) = None
   \<and> handed (fst (snd chunked_upload)) = []
   \<and> Copied 0 None \<in> set (fst (snd chunked_upload))
   \<and> rw_body (writers (fst (snd (snd chunked_upload))) 1) = []
   \<and> responses (fst (snd chunked_upload))
        = [link_message sample_config ''hello.txt'' sample_ID, ''Client connected.'' @ [LF],
           ''hello.txt was transferred successfully.'' @ [LF]]
   \<and> (\<exists>wf. snd (snd (snd chunked_upload)) = Some wf
         \<and> bw_wire (body wf)
             = link_message sample_config ''hello.txt'' sample_ID @ ''Client connected.'' @ [LF]
               @ ''hello.txt was transferred successfully.'' @ [LF]
         \<and> bw_buf (body wf) = [])"
proof -
  note main = unknown_length_copies_nothing [OF chunked_facts(1) sample_fileID sample_free
      sample_hijack sample_select sample_claimed(1,2,3) chunked_facts(2) sample_sound(1,2)
      sample_upload_run(2) [unfolded chunked_upload_def], folded chunked_upload_def]
  from main have wire: "\<exists>wf. snd (snd (snd chunked_upload)) = Some wf
         \<and> bw_wire (body wf)
             = link_message sample_config ''hello.txt'' sample_ID @ ''Client connected.'' @ [LF]
               @ ''hello.txt was transferred successfully.'' @ [LF]
         \<and> bw_buf (body wf) = []"
    by (auto simp: sample_sound)
  from main sample_claimed(4) have copy: "handed (fst (snd chunked_upload)) = []
     \<and> Copied 0 None \<in> set (fst (snd chunked_upload))
     \<and> rw_body (writers (fst (snd (snd chunked_upload))) 1) = []
     \<and> responses (fst (snd chunked_upload))
          = [link_message sample_config ''hello.txt'' sample_ID, ''Client connected.'' @ [LF],
             ''hello.txt was transferred successfully.'' @ [LF]]"
    by (simp add: sample_writer_def)
  from wire copy chunked_facts sample_fileID sample_free sample_hijack sample_select
    sample_claimed(1,2,3) sample_sound(1,2)
  show ?thesis by blast
qed

end
